theory Spec2Isabelle
  imports Main "HOL-Library.Monad_Syntax"
begin

section \<open>JavaScript values\<close>

text \<open>
  The analyzer walks the tree that the SQL parser hands over. Such a tree is made of
  \<open>undefined\<close>, \<open>null\<close>, booleans, numbers, strings, arrays and plain objects, and no
  object or array occurs at two places of it. A number is modelled by an integer, of a
  magnitude that JavaScript prints in decimal digits (the parser produces declared
  lengths with \<open>parseInt\<close>); a string by the list of its characters, restricted to
  ASCII; an array by the list of its elements; a plain object by the list of its own
  properties, in which a property is looked up with \<open>map_of\<close>.
\<close>

datatype jsval =
    JUndefined
  | JNull
  | JBool bool
  | JNum int
  | JStr string
  | JArr "jsval list"
  | JObj "(string \<times> jsval) list"

text \<open>The only exception that the analyzer can meet is a \<open>TypeError\<close>: a computation
  that may throw returns \<open>None\<close> when it does and \<open>Some\<close> of its value otherwise.\<close>

type_synonym 'a throws = "'a option"

fun truthy :: "jsval \<Rightarrow> bool" where
  "truthy JUndefined = False"
| "truthy JNull = False"
| "truthy (JBool b) = b"
| "truthy (JNum n) = (n \<noteq> 0)"
| "truthy (JStr s) = (s \<noteq> [])"
| "truthy (JArr xs) = True"
| "truthy (JObj ps) = True"

fun typeof :: "jsval \<Rightarrow> string" where
  "typeof JUndefined = ''undefined''"
| "typeof JNull = ''object''"
| "typeof (JBool b) = ''boolean''"
| "typeof (JNum n) = ''number''"
| "typeof (JStr s) = ''string''"
| "typeof (JArr xs) = ''object''"
| "typeof (JObj ps) = ''object''"

fun isArray :: "jsval \<Rightarrow> bool" where
  "isArray (JArr xs) = True"
| "isArray v = False"

text \<open>
  \<open>readProp v k\<close> is \<open>v[k]\<close> for a receiver other than \<open>null\<close> and \<open>undefined\<close>, for the
  property names that the analyzer reads (\<open>type\<close>, \<open>db\<close>, \<open>keyword\<close>, \<open>table\<close>,
  \<open>create_definitions\<close>, \<open>values\<close>, \<open>resource\<close>, \<open>column\<close>, \<open>definition\<close>, \<open>dataType\<close>,
  \<open>length\<close>, \<open>scale\<close>): an object answers with its own property, an array and a string
  have a \<open>length\<close>, and everything else is \<open>undefined\<close>. The one inherited method
  among these names, \<open>values\<close> of an array, is read only from a statement whose \<open>type\<close>
  is \<open>'insert'\<close>, which an array never is.
\<close>

fun readProp :: "jsval \<Rightarrow> string \<Rightarrow> jsval" where
  "readProp (JObj ps) k = (case map_of ps k of Some v \<Rightarrow> v | None \<Rightarrow> JUndefined)"
| "readProp (JArr xs) k = (if k = ''length'' then JNum (int (length xs)) else JUndefined)"
| "readProp (JStr s) k = (if k = ''length'' then JNum (int (length s)) else JUndefined)"
| "readProp v k = JUndefined"

text \<open>Reading a property of \<open>null\<close> or \<open>undefined\<close> throws.\<close>

definition get :: "jsval \<Rightarrow> string \<Rightarrow> jsval throws" where
  "get v k = (if v = JNull \<or> v = JUndefined then None else Some (readProp v k))"

definition present :: "jsval \<Rightarrow> bool" where
  "present v = (v \<noteq> JUndefined \<and> v \<noteq> JNull)"

subsection \<open>Strings\<close>

definition upper_char :: "char \<Rightarrow> char" where
  "upper_char c =
     (case map_of (zip ''abcdefghijklmnopqrstuvwxyz'' ''ABCDEFGHIJKLMNOPQRSTUVWXYZ'') c of
        Some u \<Rightarrow> u | None \<Rightarrow> c)"

definition toUpperCase :: "string \<Rightarrow> string" where
  "toUpperCase s = map upper_char s"

definition digit_char :: "nat \<Rightarrow> char" where
  "digit_char d = ''0123456789'' ! (d mod 10)"

fun show_nat :: "nat \<Rightarrow> string" where
  "show_nat n = (if n < 10 then [digit_char n] else show_nat (n div 10) @ [digit_char (n mod 10)])"

declare show_nat.simps [simp del]

definition show_int :: "int \<Rightarrow> string" where
  "show_int i = (if i < 0 then CHR ''-'' # show_nat (nat (- i)) else show_nat (nat i))"

fun join :: "string \<Rightarrow> string list \<Rightarrow> string" where
  "join sep [] = []"
| "join sep [x] = x"
| "join sep (x # y # ys) = x @ sep @ join sep (y # ys)"

text \<open>
  \<open>toStringJS v\<close> is the conversion that a template literal applies to \<open>v\<close>. An array
  joins its elements with commas, \<open>null\<close> and \<open>undefined\<close> elements giving the empty
  string. A plain object gives \<open>[object Object]\<close> through the inherited \<open>toString\<close>;
  when it has an own property \<open>toString\<close>, which in a tree of data is not a function,
  neither \<open>toString\<close> nor the inherited \<open>valueOf\<close> yields a primitive and the
  conversion throws.
\<close>

fun toStringJS :: "jsval \<Rightarrow> string throws" where
  "toStringJS JUndefined = Some ''undefined''"
| "toStringJS JNull = Some ''null''"
| "toStringJS (JBool b) = Some (if b then ''true'' else ''false'')"
| "toStringJS (JNum n) = Some (show_int n)"
| "toStringJS (JStr s) = Some s"
| "toStringJS (JArr xs) =
     map_option (join '','')
       (those (map (\<lambda>x. if x = JNull \<or> x = JUndefined then Some [] else toStringJS x) xs))"
| "toStringJS (JObj ps) =
     (if map_of ps ''toString'' \<noteq> None then None else Some ''[object Object]'')"

section \<open>The analyzer\<close>

subsection \<open>buildDataType\<close>

definition buildDataType :: "jsval \<Rightarrow> string throws" where
  "buildDataType definition =
     (if \<not> truthy definition then Some ''unknown''
      else do {
        dt \<leftarrow> get definition ''dataType'';
        dataType \<leftarrow>
          (case dt of
             JStr s \<Rightarrow> Some (toUpperCase s)
           | _ \<Rightarrow>
             if truthy dt then do {
               inner \<leftarrow> get dt ''dataType'';
               Some (case inner of JStr s \<Rightarrow> toUpperCase s | _ \<Rightarrow> ''unknown'')
             } else Some ''unknown'');
        outerLength \<leftarrow> get definition ''length'';
        length \<leftarrow>
          (if present outerLength then Some outerLength
           else if truthy dt then do {
             innerLength \<leftarrow> get dt ''length'';
             Some (if present innerLength then innerLength else JNull)
           } else Some JNull);
        outerScale \<leftarrow> get definition ''scale'';
        scale \<leftarrow>
          (if present outerScale then Some outerScale
           else if truthy dt then do {
             innerScale \<leftarrow> get dt ''scale'';
             Some (if present innerScale then innerScale else JNull)
           } else Some JNull);
        if present length then
          (if present scale then do {
             l \<leftarrow> toStringJS length;
             s \<leftarrow> toStringJS scale;
             Some (dataType @ ''('' @ l @ '','' @ s @ '')'')
           } else do {
             l \<leftarrow> toStringJS length;
             Some (dataType @ ''('' @ l @ '')'')
           })
        else Some dataType
      })"

subsection \<open>extractColumnName and extractColumns\<close>

record column_summary =
  columnName :: string
  dataType :: string

definition extractColumnName :: "jsval \<Rightarrow> string throws" where
  "extractColumnName def = do {
     c \<leftarrow> get def ''column'';
     case c of
       JStr s \<Rightarrow> Some s
     | _ \<Rightarrow>
       if truthy c then do {
         cc \<leftarrow> get c ''column'';
         case cc of
           JStr s \<Rightarrow> Some s
         | _ \<Rightarrow>
           if truthy cc then do {
             ccc \<leftarrow> get cc ''column'';
             Some (case ccc of JStr s \<Rightarrow> s | _ \<Rightarrow> ''unknown'')
           } else Some ''unknown''
       } else Some ''unknown''
   }"

text \<open>The filter of \<open>extractColumns\<close>: \<open>def && def.resource === 'column'\<close>.\<close>

definition isColumnDef :: "jsval \<Rightarrow> bool" where
  "isColumnDef def = (truthy def \<and> get def ''resource'' = Some (JStr ''column''))"

definition makeColumn :: "jsval \<Rightarrow> column_summary throws" where
  "makeColumn def = do {
     name \<leftarrow> extractColumnName def;
     d \<leftarrow> get def ''definition'';
     ty \<leftarrow> buildDataType d;
     Some \<lparr>columnName = name, dataType = ty\<rparr>
   }"

text \<open>\<open>Array.prototype.map\<close> with a callback that may throw: the first exception ends it.\<close>

fun mapThrows :: "('a \<Rightarrow> 'b throws) \<Rightarrow> 'a list \<Rightarrow> 'b list throws" where
  "mapThrows f [] = Some []"
| "mapThrows f (x # xs) = do { y \<leftarrow> f x; ys \<leftarrow> mapThrows f xs; Some (y # ys) }"

definition extractColumns :: "jsval \<Rightarrow> column_summary list throws" where
  "extractColumns definitions =
     (case definitions of
        JArr defs \<Rightarrow> mapThrows makeColumn (filter isColumnDef defs)
      | _ \<Rightarrow> Some [])"

subsection \<open>extractTableName\<close>

text \<open>
  The function has three blocks; the second and the third either return or fall through
  to what follows. \<open>fromArray\<close> is the second block: \<open>Some v\<close> when it returns \<open>v\<close>,
  \<open>None\<close> when it falls through.
\<close>

definition fromArray :: "jsval \<Rightarrow> jsval option throws" where
  "fromArray tableRef =
     (case tableRef of
        JArr (firstTable # rest) \<Rightarrow>
          (case firstTable of
             JStr s \<Rightarrow> Some (Some firstTable)
           | _ \<Rightarrow>
             if truthy firstTable then do {
               t \<leftarrow> get firstTable ''table'';
               if truthy t then
                 (case t of
                    JStr s \<Rightarrow> Some (Some t)
                  | _ \<Rightarrow> do { tt \<leftarrow> get t ''table''; Some (Some tt) })
               else Some None
             } else Some None)
      | _ \<Rightarrow> Some None)"

definition fromObject :: "jsval \<Rightarrow> jsval option throws" where
  "fromObject tableRef =
     (if truthy tableRef \<and> typeof tableRef = ''object'' then do {
        t \<leftarrow> get tableRef ''table'';
        case t of
          JStr s \<Rightarrow> Some (Some t)
        | _ \<Rightarrow>
          if truthy t then do {
            tt \<leftarrow> get t ''table'';
            Some (if truthy tt then Some tt else None)
          } else Some None
      } else Some None)"

definition extractTableName :: "jsval \<Rightarrow> jsval throws" where
  "extractTableName tableRef =
     (case tableRef of
        JStr s \<Rightarrow> Some tableRef
      | _ \<Rightarrow> do {
          a \<leftarrow> fromArray tableRef;
          case a of
            Some name \<Rightarrow> Some name
          | None \<Rightarrow> do {
              b \<leftarrow> fromObject tableRef;
              case b of
                Some name \<Rightarrow> Some name
              | None \<Rightarrow> Some JNull
            }
        })"

subsection \<open>The table map\<close>

record table_summary =
  tableName :: jsval
  columns :: "column_summary list"
  rowCount :: nat

text \<open>
  A \<open>Map\<close> compares keys with SameValueZero: two primitive values are the same key when
  they are equal, and an object or an array is the same key only as itself. The input
  is a tree, so that an object met at one place of it is never the object met at
  another place: an object or array key is never found again.
\<close>

fun sameValueZero :: "jsval \<Rightarrow> jsval \<Rightarrow> bool" where
  "sameValueZero (JArr xs) b = False"
| "sameValueZero (JObj ps) b = False"
| "sameValueZero a b = (a = b)"

text \<open>The map is the list of its values in insertion order, each under its \<open>tableName\<close>.\<close>

definition mapHas :: "jsval \<Rightarrow> table_summary list \<Rightarrow> bool" where
  "mapHas k m = list_ex (\<lambda>t. sameValueZero (tableName t) k) m"

fun mapSet :: "jsval \<Rightarrow> table_summary \<Rightarrow> table_summary list \<Rightarrow> table_summary list" where
  "mapSet k v [] = [v]"
| "mapSet k v (t # ts) = (if sameValueZero (tableName t) k then v # ts else t # mapSet k v ts)"

text \<open>\<open>tableMap.get(k).rowCount += n\<close>\<close>

fun addRows :: "jsval \<Rightarrow> nat \<Rightarrow> table_summary list \<Rightarrow> table_summary list" where
  "addRows k n [] = []"
| "addRows k n (t # ts) =
     (if sameValueZero (tableName t) k then t\<lparr>rowCount := rowCount t + n\<rparr> # ts
      else t # addRows k n ts)"

subsection \<open>analyzeSqlAst\<close>

record analysis_result =
  databaseName :: jsval
  totalTables :: nat
  tables :: "table_summary list"

text \<open>What the callback of \<open>forEach\<close> updates: \<open>result.databaseName\<close> and \<open>tableMap\<close>.\<close>

record walk =
  result_databaseName :: jsval
  tableMap :: "table_summary list"

definition processStatement :: "walk \<Rightarrow> jsval \<Rightarrow> walk throws" where
  "processStatement w statement =
     (if \<not> truthy statement \<or> typeof statement \<noteq> ''object'' then Some w
      else do {
        ty \<leftarrow> get statement ''type'';
        if ty = JStr ''use'' then do {
          db \<leftarrow> get statement ''db'';
          if truthy db then do {
            name \<leftarrow>
              (case db of
                 JStr s \<Rightarrow> Some db
               | _ \<Rightarrow> do { inner \<leftarrow> get db ''db''; Some (if truthy inner then inner else db) });
            Some (w\<lparr>result_databaseName := name\<rparr>)
          } else Some w
        } else if ty = JStr ''create'' then do {
          keyword \<leftarrow> get statement ''keyword'';
          tbl \<leftarrow> get statement ''table'';
          if keyword = JStr ''table'' \<and> truthy tbl then do {
            name \<leftarrow> extractTableName tbl;
            if truthy name then do {
              defs \<leftarrow> get statement ''create_definitions'';
              cols \<leftarrow> extractColumns defs;
              Some (w\<lparr>tableMap :=
                mapSet name \<lparr>tableName = name, columns = cols, rowCount = 0\<rparr> (tableMap w)\<rparr>)
            } else Some w
          } else Some w
        } else if ty = JStr ''insert'' then do {
          tbl \<leftarrow> get statement ''table'';
          if truthy tbl then do {
            name \<leftarrow> extractTableName tbl;
            if truthy name \<and> mapHas name (tableMap w) then do {
              vals \<leftarrow> get statement ''values'';
              Some (w\<lparr>tableMap :=
                addRows name (case vals of JArr vs \<Rightarrow> length vs | _ \<Rightarrow> 1) (tableMap w)\<rparr>)
            } else Some w
          } else Some w
        } else Some w
      })"

fun forEach :: "('s \<Rightarrow> 'a \<Rightarrow> 's throws) \<Rightarrow> 'a list \<Rightarrow> 's \<Rightarrow> 's throws" where
  "forEach f [] s = Some s"
| "forEach f (x # xs) s = do { s' \<leftarrow> f s x; forEach f xs s' }"

text \<open>\<open>Array.isArray(ast) ? ast : [ast]\<close>\<close>

definition statementsOf :: "jsval \<Rightarrow> jsval list" where
  "statementsOf ast = (case ast of JArr xs \<Rightarrow> xs | _ \<Rightarrow> [ast])"

text \<open>The state before the first statement: no database name, an empty map.\<close>

definition start :: walk where
  "start = \<lparr>result_databaseName = JNull, tableMap = []\<rparr>"

definition analyzeSqlAst :: "jsval \<Rightarrow> analysis_result throws" where
  "analyzeSqlAst ast = do {
     w \<leftarrow> forEach processStatement (statementsOf ast) start;
     Some \<lparr>databaseName = result_databaseName w,
           totalTables = length (tableMap w),
           tables = tableMap w\<rparr>
   }"

section \<open>Statements as the parser gives them\<close>

text \<open>
  The statements of the examples have the shape that the parser gives them: a table
  reference is an array of one object with the name in its \<open>table\<close> field, the name of
  a column is nested in a \<open>column_ref\<close>, the type tag of a column is a string, a
  declared length is a number beside it, and a column without a declared length has no
  \<open>length\<close> field.
\<close>

definition table_ref :: "string \<Rightarrow> jsval" where
  "table_ref t = JArr [JObj [(''db'', JNull), (''table'', JStr t)]]"

definition column_ref :: "string \<Rightarrow> jsval" where
  "column_ref c = JObj [(''type'', JStr ''column_ref''), (''table'', JNull), (''column'', JStr c)]"

definition column_def :: "string \<Rightarrow> jsval \<Rightarrow> jsval" where
  "column_def c ty =
     JObj [(''column'', column_ref c), (''definition'', ty), (''resource'', JStr ''column'')]"

definition expr_list :: "jsval list \<Rightarrow> jsval" where
  "expr_list vs = JObj [(''type'', JStr ''expr_list''), (''value'', JArr vs)]"

definition use_stmt :: "string \<Rightarrow> jsval" where
  "use_stmt d = JObj [(''type'', JStr ''use''), (''db'', JStr d)]"

definition create_stmt :: "string \<Rightarrow> jsval \<Rightarrow> jsval" where
  "create_stmt t defs = JObj
     [(''type'', JStr ''create''),
      (''keyword'', JStr ''table''),
      (''table'', table_ref t),
      (''create_definitions'', defs)]"

definition insert_stmt :: "string \<Rightarrow> jsval \<Rightarrow> jsval" where
  "insert_stmt t vals = JObj
     [(''type'', JStr ''insert''),
      (''table'', table_ref t),
      (''columns'', JNull),
      (''values'', vals)]"

text \<open>
  \<open>USE shop; CREATE TABLE users(id INT, name VARCHAR(50));
  INSERT INTO users VALUES (1,'a'),(2,'b'); INSERT INTO users VALUES (3,'c');\<close>
\<close>

definition scenario :: jsval where
  "scenario = JArr
     [use_stmt ''shop'',
      create_stmt ''users'' (JArr
        [column_def ''id'' (JObj [(''dataType'', JStr ''INT'')]),
         column_def ''name'' (JObj [(''dataType'', JStr ''VARCHAR''), (''length'', JNum 50)])]),
      insert_stmt ''users'' (JArr [expr_list [JNum 1, JStr ''a''], expr_list [JNum 2, JStr ''b'']]),
      insert_stmt ''users'' (JArr [expr_list [JNum 3, JStr ''c'']])]"

text \<open>
  A second sequence, in which the table \<open>orders\<close> is declared twice, with rows inserted
  before the first declaration, between the two and after the second, the second
  declaration having a key constraint beside its column, and in which the table \<open>items\<close>
  is declared without a list of definitions:
  \<open>INSERT INTO orders VALUES (1); CREATE TABLE orders(id INT(11));
  INSERT INTO orders VALUES (1),(2); USE a;
  CREATE TABLE orders(total DECIMAL(10,2), PRIMARY KEY (total));
  INSERT INTO orders VALUES (3); INSERT INTO orders ...; CREATE TABLE items; USE b;\<close>
\<close>

definition primary_key :: jsval where
  "primary_key = JObj [(''constraint_type'', JStr ''primary key''), (''resource'', JStr ''constraint'')]"

definition redeclared_before :: "jsval list" where
  "redeclared_before =
     [insert_stmt ''orders'' (JArr [expr_list [JNum 1]]),
      create_stmt ''orders'' (JArr
        [column_def ''id'' (JObj [(''dataType'', JStr ''INT''), (''length'', JNum 11)])]),
      insert_stmt ''orders'' (JArr [expr_list [JNum 1], expr_list [JNum 2]]),
      use_stmt ''a'']"

definition redeclared_create :: jsval where
  "redeclared_create =
     create_stmt ''orders'' (JArr
       [column_def ''total''
          (JObj [(''dataType'', JStr ''DECIMAL''), (''length'', JNum 10), (''scale'', JNum 2)]),
        primary_key])"

definition redeclared_after :: "jsval list" where
  "redeclared_after =
     [insert_stmt ''orders'' (JArr [expr_list [JNum 3]]),
      insert_stmt ''orders'' (JObj [(''type'', JStr ''select'')]),
      create_stmt ''items'' JNull,
      use_stmt ''b'']"

definition redeclared :: jsval where
  "redeclared = JArr (redeclared_before @ redeclared_create # redeclared_after)"

definition orders_summary :: table_summary where
  "orders_summary =
     \<lparr>tableName = JStr ''orders'',
      columns = [\<lparr>columnName = ''total'', dataType = ''DECIMAL(10,2)''\<rparr>],
      rowCount = 2\<rparr>"

definition redeclared_summary :: analysis_result where
  "redeclared_summary =
     \<lparr>databaseName = JStr ''b'',
      totalTables = 2,
      tables = [orders_summary, \<lparr>tableName = JStr ''items'', columns = [], rowCount = 0\<rparr>]\<rparr>"

section \<open>The vocabulary of the specification\<close>

text \<open>
  A statement is a truthy value of type \<open>object\<close>; its kind is its \<open>type\<close> field.
\<close>

definition isStatement :: "jsval \<Rightarrow> bool" where
  "isStatement s = (truthy s \<and> typeof s = ''object'')"

definition hasKind :: "string \<Rightarrow> jsval \<Rightarrow> bool" where
  "hasKind k s = (isStatement s \<and> readProp s ''type'' = JStr k)"

text \<open>
  The value that a \<open>use\<close> statement assigns to the database name, if it assigns one:
  its \<open>db\<close> field must be truthy.
\<close>

definition useValue :: "jsval \<Rightarrow> jsval option" where
  "useValue s =
     (let db = readProp s ''db'' in
      if hasKind ''use'' s \<and> truthy db then
        Some (case db of
                JStr n \<Rightarrow> db
              | _ \<Rightarrow> if truthy (readProp db ''db'') then readProp db ''db'' else db)
      else None)"

text \<open>
  The name that a table reference gives to a \<open>create\<close> or an \<open>insert\<close> statement: the
  reference and the extracted name must both be truthy.
\<close>

definition namedTable :: "jsval \<Rightarrow> jsval option" where
  "namedTable ref =
     (if truthy ref then
        (case extractTableName ref of
           Some n \<Rightarrow> if truthy n then Some n else None
         | None \<Rightarrow> None)
      else None)"

definition createdName :: "jsval \<Rightarrow> jsval option" where
  "createdName s =
     (if hasKind ''create'' s \<and> readProp s ''keyword'' = JStr ''table''
      then namedTable (readProp s ''table'') else None)"

definition insertedName :: "jsval \<Rightarrow> jsval option" where
  "insertedName s = (if hasKind ''insert'' s then namedTable (readProp s ''table'') else None)"

text \<open>The number of rows of an \<open>insert\<close> statement.\<close>

definition insertSize :: "jsval \<Rightarrow> nat" where
  "insertSize s = (case readProp s ''values'' of JArr vs \<Rightarrow> length vs | _ \<Rightarrow> 1)"

text \<open>A statement creates, or inserts into, the table whose key in the map is \<open>k\<close>.\<close>

definition creates :: "jsval \<Rightarrow> jsval \<Rightarrow> bool" where
  "creates k s = (case createdName s of Some n \<Rightarrow> sameValueZero n k | None \<Rightarrow> False)"

definition insertsInto :: "jsval \<Rightarrow> jsval \<Rightarrow> bool" where
  "insertsInto k s = (case insertedName s of Some n \<Rightarrow> sameValueZero n k | None \<Rightarrow> False)"

definition isPrimitive :: "jsval \<Rightarrow> bool" where
  "isPrimitive v = (case v of JArr xs \<Rightarrow> False | JObj ps \<Rightarrow> False | _ \<Rightarrow> True)"

text \<open>The names of the tables that a sequence of statements creates, in its order.\<close>

definition createdNames :: "jsval list \<Rightarrow> jsval list" where
  "createdNames stmts = List.map_filter createdName stmts"

text \<open>The keys of a list in the order in which each is first seen.\<close>

function firstSeen :: "jsval list \<Rightarrow> jsval list" where
  "firstSeen [] = []"
| "firstSeen (k # ks) = k # firstSeen (filter (\<lambda>b. \<not> sameValueZero k b) ks)"
  by pat_completeness auto
termination
  by (relation "measure length") (auto simp: less_Suc_eq_le)

text \<open>
  The statements after the last one that creates the table with key \<open>k\<close>, and the rows
  which the \<open>insert\<close> statements among them give to \<open>k\<close>.
\<close>

definition afterLastCreate :: "jsval \<Rightarrow> jsval list \<Rightarrow> jsval list" where
  "afterLastCreate k stmts = rev (takeWhile (\<lambda>s. \<not> creates k s) (rev stmts))"

definition countedRows :: "jsval \<Rightarrow> jsval list \<Rightarrow> nat" where
  "countedRows k stmts =
     sum_list (map insertSize (filter (insertsInto k) (afterLastCreate k stmts)))"

text \<open>The columns that the last statement creating \<open>k\<close> declares.\<close>

definition declaredColumns :: "jsval \<Rightarrow> jsval list \<Rightarrow> column_summary list option" where
  "declaredColumns k stmts =
     (case find (creates k) (rev stmts) of
        Some c \<Rightarrow> extractColumns (readProp c ''create_definitions'')
      | None \<Rightarrow> None)"

text \<open>The value that the last assigning \<open>use\<close> statement gives, \<open>null\<close> without one.\<close>

definition lastUse :: "jsval list \<Rightarrow> jsval" where
  "lastUse stmts = (case List.map_filter useValue stmts of [] \<Rightarrow> JNull | v # vs \<Rightarrow> last (v # vs))"

text \<open>
  The database name in the words of the specification: the target of the last \<open>use\<close>
  statement, which is a bare string or the string under the \<open>db\<close> field of a nested
  object, and nothing without a \<open>use\<close> statement.
\<close>

definition claimedTarget :: "jsval \<Rightarrow> jsval" where
  "claimedTarget s =
     (let db = readProp s ''db'';
          nested = readProp db ''db''
      in case db of
           JStr d \<Rightarrow> db
         | _ \<Rightarrow> (case nested of JStr d \<Rightarrow> nested | _ \<Rightarrow> JNull))"

definition claimedDatabaseName :: "jsval list \<Rightarrow> jsval" where
  "claimedDatabaseName stmts =
     (case filter (hasKind ''use'') stmts of
        [] \<Rightarrow> JNull
      | u # us \<Rightarrow> claimedTarget (last (u # us)))"

text \<open>
  The shapes of a table reference in the words of the specification: (a) a string;
  (b) a non-empty sequence whose first element has shape (c) or (d); (c) an object
  whose \<open>table\<close> field is a string; (d) an object whose \<open>table\<close> field is an object
  with a string \<open>table\<close> field.
\<close>

definition claimedObjectName :: "jsval \<Rightarrow> string option" where
  "claimedObjectName v =
     (case v of
        JObj ps \<Rightarrow>
          (case readProp v ''table'' of
             JStr t \<Rightarrow> Some t
           | JObj qs \<Rightarrow> (case readProp (JObj qs) ''table'' of JStr t \<Rightarrow> Some t | _ \<Rightarrow> None)
           | _ \<Rightarrow> None)
      | _ \<Rightarrow> None)"

definition claimedTableName :: "jsval \<Rightarrow> string option" where
  "claimedTableName v =
     (case v of
        JStr t \<Rightarrow> Some t
      | JArr (x # xs) \<Rightarrow> claimedObjectName x
      | _ \<Rightarrow> claimedObjectName v)"

text \<open>
  The shapes from which the code extracts a string: a string; a non-empty sequence
  whose first element is a string, or has a non-empty string in its \<open>table\<close> field, or
  has there a value with a string in its own \<open>table\<close> field; an object with a string
  in its \<open>table\<close> field, or with a value there that has a non-empty string in its own
  \<open>table\<close> field.
\<close>

definition shapeName :: "jsval \<Rightarrow> string option" where
  "shapeName v =
     (case v of
        JStr t \<Rightarrow> Some t
      | JArr (x # xs) \<Rightarrow>
          (case x of
             JStr t \<Rightarrow> Some t
           | _ \<Rightarrow>
             (case readProp x ''table'' of
                JStr t \<Rightarrow> if t \<noteq> [] then Some t else None
              | inner \<Rightarrow> (case readProp inner ''table'' of JStr t \<Rightarrow> Some t | _ \<Rightarrow> None)))
      | JObj ps \<Rightarrow>
          (case readProp v ''table'' of
             JStr t \<Rightarrow> Some t
           | inner \<Rightarrow>
             (case readProp inner ''table'' of
                JStr t \<Rightarrow> if t \<noteq> [] then Some t else None
              | _ \<Rightarrow> None))
      | _ \<Rightarrow> None)"

text \<open>
  The name of a column and the type tag of a definition under the documented shapes:
  the name is a string in the \<open>column\<close> field, or one or two levels further under
  \<open>column\<close> fields; the tag is a string in the \<open>dataType\<close> field, or one level further
  under a \<open>dataType\<close> field.
\<close>

definition documentedColumnName :: "jsval \<Rightarrow> string option" where
  "documentedColumnName def =
     (let c1 = readProp def ''column'';
          c2 = readProp c1 ''column'';
          c3 = readProp c2 ''column''
      in case c1 of
           JStr c \<Rightarrow> Some c
         | _ \<Rightarrow>
           (case c2 of
              JStr c \<Rightarrow> Some c
            | _ \<Rightarrow> (case c3 of JStr c \<Rightarrow> Some c | _ \<Rightarrow> None)))"

definition documentedTypeTag :: "jsval \<Rightarrow> string option" where
  "documentedTypeTag d =
     (let dt = readProp d ''dataType'';
          nested = readProp dt ''dataType''
      in case dt of
           JStr t \<Rightarrow> Some t
         | _ \<Rightarrow> (case nested of JStr t \<Rightarrow> Some t | _ \<Rightarrow> None))"

text \<open>
  The length or the scale that the builder finds: the field of the definition when it
  is present, else the field of a truthy \<open>dataType\<close> when that is present, else nothing.
  The suffix of the composition rule follows.
\<close>

definition declared :: "string \<Rightarrow> jsval \<Rightarrow> jsval" where
  "declared f d =
     (let outer = readProp d f; dt = readProp d ''dataType'' in
      if present outer then outer
      else if truthy dt \<and> present (readProp dt f) then readProp dt f
      else JNull)"

definition typeSuffix :: "jsval \<Rightarrow> jsval \<Rightarrow> string throws" where
  "typeSuffix len scl =
     (if present len then
        (if present scl then do {
           l \<leftarrow> toStringJS len;
           s \<leftarrow> toStringJS scl;
           Some (''('' @ l @ '','' @ s @ '')'')
         } else do {
           l \<leftarrow> toStringJS len;
           Some (''('' @ l @ '')'')
         })
      else Some [])"

text \<open>
  A tree is plain when none of its objects has a property \<open>toString\<close> of its own:
  every value of a plain tree can be converted to a string.
\<close>

fun plain :: "jsval \<Rightarrow> bool" where
  "plain (JArr xs) = (\<forall>x \<in> set xs. plain x)"
| "plain (JObj ps) = (map_of ps ''toString'' = None \<and> (\<forall>(k, v) \<in> set ps. plain v))"
| "plain v = True"

section \<open>Properties\<close>

subsection \<open>Property reads\<close>

lemma get_truthy [simp]: "truthy v \<Longrightarrow> get v k = Some (readProp v k)"
  by (cases v) (simp_all add: get_def)

lemma get_JObj [simp]: "get (JObj ps) k = Some (readProp (JObj ps) k)"
  by (simp add: get_def)

lemma get_JArr [simp]: "get (JArr xs) k = Some (readProp (JArr xs) k)"
  by (simp add: get_def)

lemma readProp_falsy: "\<not> truthy v \<Longrightarrow> k \<noteq> ''length'' \<Longrightarrow> readProp v k = JUndefined"
  by (cases v) simp_all

lemma case_not_JStr:
  "\<forall>s. x \<noteq> JStr s \<Longrightarrow>
   (case x of JUndefined \<Rightarrow> b | JNull \<Rightarrow> b | JBool _ \<Rightarrow> b | JNum _ \<Rightarrow> b | JStr s \<Rightarrow> a s
    | JArr _ \<Rightarrow> b | JObj _ \<Rightarrow> b) = b"
  by (cases x) simp_all

lemma string_or_not:
  obtains (string) s where "x = JStr s" | (other) "\<forall>s. x \<noteq> JStr s"
  by blast

subsection \<open>The extractor of table names\<close>

text \<open>What the value under the \<open>table\<close> field of an object or of a first element gives.\<close>

lemma fromObject_eq:
  "fromObject v =
     Some (if truthy v \<and> typeof v = ''object'' then
             (case readProp v ''table'' of
                JStr t \<Rightarrow> Some (JStr t)
              | inner \<Rightarrow>
                if truthy (readProp inner ''table'') then Some (readProp inner ''table'') else None)
           else None)"
proof (cases "truthy v \<and> typeof v = ''object''")
  case False
  then show ?thesis by (auto simp: fromObject_def)
next
  case True
  then have g: "get v ''table'' = Some (readProp v ''table'')" by simp
  show ?thesis
  proof (cases "truthy (readProp v ''table'')")
    case False
    from readProp_falsy[OF False, of "''table''"] False True g show ?thesis
      by (cases "readProp v ''table''") (simp_all add: fromObject_def)
  next
    case t: True
    then have "get (readProp v ''table'') ''table'' = Some (readProp (readProp v ''table'') ''table'')"
      by simp
    with True g t show ?thesis
      by (cases "readProp v ''table''") (simp_all add: fromObject_def)
  qed
qed

lemma fromArray_eq:
  "fromArray v =
     Some (case v of
             JArr (x # xs) \<Rightarrow>
               (case x of
                  JStr t \<Rightarrow> Some x
                | _ \<Rightarrow>
                  if truthy (readProp x ''table'') then
                    (case readProp x ''table'' of
                       JStr t \<Rightarrow> Some (JStr t)
                     | inner \<Rightarrow> Some (readProp inner ''table''))
                  else None)
           | _ \<Rightarrow> None)"
proof (cases v)
  case (JArr ys)
  show ?thesis
  proof (cases ys)
    case Nil
    with JArr show ?thesis by (simp add: fromArray_def)
  next
    case (Cons x xs)
    have "(case x of JStr s \<Rightarrow> Some (Some x)
           | _ \<Rightarrow> if truthy x then do {
               t \<leftarrow> get x ''table'';
               if truthy t then
                 (case t of
                    JStr s \<Rightarrow> Some (Some t)
                  | _ \<Rightarrow> do { tt \<leftarrow> get t ''table''; Some (Some tt) })
               else Some None
             } else Some None) =
          Some (case x of
                  JStr t \<Rightarrow> Some x
                | _ \<Rightarrow>
                  if truthy (readProp x ''table'') then
                    (case readProp x ''table'' of
                       JStr t \<Rightarrow> Some (JStr t)
                     | inner \<Rightarrow> Some (readProp inner ''table''))
                  else None)" (is "?l = ?r")
    proof (cases "\<exists>s. x = JStr s")
      case True
      then show ?thesis by auto
    next
      case ns: False
      then have l: "?l = (if truthy x then do {
               t \<leftarrow> get x ''table'';
               if truthy t then
                 (case t of
                    JStr s \<Rightarrow> Some (Some t)
                  | _ \<Rightarrow> do { tt \<leftarrow> get t ''table''; Some (Some tt) })
               else Some None
             } else Some None)"
        by (cases x) simp_all
      from ns have r: "?r = Some (if truthy (readProp x ''table'') then
                    (case readProp x ''table'' of
                       JStr t \<Rightarrow> Some (JStr t)
                     | inner \<Rightarrow> Some (readProp inner ''table''))
                  else None)"
        by (cases x) simp_all
      show ?thesis
      proof (cases "truthy x")
        case False
        with readProp_falsy[OF False, of "''table''"] show ?thesis unfolding l r by simp
      next
        case tx: True
        show ?thesis
        proof (cases "truthy (readProp x ''table'')")
          case False
          with tx show ?thesis unfolding l r by simp
        next
          case True
          with tx show ?thesis unfolding l r
            by (cases "readProp x ''table''") simp_all
        qed
      qed
    qed
    with JArr Cons show ?thesis by (simp add: fromArray_def)
  qed
qed (simp_all add: fromArray_def)

lemma extractTableName_JObj:
  assumes "v = JObj ps"
  shows "extractTableName v =
     Some (case readProp v ''table'' of
             JStr t \<Rightarrow> JStr t
           | inner \<Rightarrow>
             if truthy (readProp inner ''table'') then readProp inner ''table'' else JNull)"
proof -
  have a: "fromArray v = Some None" using assms by (simp add: fromArray_eq)
  have t: "truthy v \<and> typeof v = ''object''" using assms by simp
  have "extractTableName v =
      Option.bind (fromObject v) (\<lambda>b. case b of Some name \<Rightarrow> Some name | None \<Rightarrow> Some JNull)"
    using assms a by (simp add: extractTableName_def)
  also have "\<dots> = Some (case readProp v ''table'' of
             JStr t \<Rightarrow> JStr t
           | inner \<Rightarrow>
             if truthy (readProp inner ''table'') then readProp inner ''table'' else JNull)"
    unfolding fromObject_eq using t by (cases "readProp v ''table''") simp_all
  finally show ?thesis .
qed

lemma extractTableName_JArr:
  assumes "v = JArr (x # xs)"
  shows "extractTableName v =
     Some (case x of
             JStr t \<Rightarrow> x
           | _ \<Rightarrow>
             if truthy (readProp x ''table'') then
               (case readProp x ''table'' of
                  JStr t \<Rightarrow> JStr t
                | inner \<Rightarrow> readProp inner ''table'')
             else JNull)"
proof -
  have o: "fromObject v = Some None" using assms by (simp add: fromObject_eq)
  have e: "extractTableName v =
      Option.bind (fromArray v) (\<lambda>a. case a of Some name \<Rightarrow> Some name | None \<Rightarrow> Some JNull)"
    using assms o by (simp add: extractTableName_def)
  show ?thesis
  proof (cases "\<exists>s. x = JStr s")
    case True
    then show ?thesis unfolding e fromArray_eq using assms by auto
  next
    case False
    then have n: "\<forall>s. x \<noteq> JStr s" by simp
    have "fromArray v =
        Some (if truthy (readProp x ''table'') then
                (case readProp x ''table'' of
                   JStr t \<Rightarrow> Some (JStr t)
                 | inner \<Rightarrow> Some (readProp inner ''table''))
              else None)"
      unfolding fromArray_eq using assms by (simp add: case_not_JStr[OF n])
    then have "extractTableName v =
        Some (if truthy (readProp x ''table'') then
                (case readProp x ''table'' of
                   JStr t \<Rightarrow> JStr t
                 | inner \<Rightarrow> readProp inner ''table'')
              else JNull)"
      unfolding e by (cases "readProp x ''table''") simp_all
    then show ?thesis by (simp add: case_not_JStr[OF n])
  qed
qed

lemma extractTableName_eq:
  "extractTableName v =
     Some (case v of
        JStr t \<Rightarrow> v
      | JArr (x # xs) \<Rightarrow>
          (case x of
             JStr t \<Rightarrow> x
           | _ \<Rightarrow>
             if truthy (readProp x ''table'') then
               (case readProp x ''table'' of
                  JStr t \<Rightarrow> JStr t
                | inner \<Rightarrow> readProp inner ''table'')
             else JNull)
      | JObj ps \<Rightarrow>
          (case readProp v ''table'' of
             JStr t \<Rightarrow> JStr t
           | inner \<Rightarrow>
             if truthy (readProp inner ''table'') then readProp inner ''table'' else JNull)
      | _ \<Rightarrow> JNull)"
proof (cases v)
  case (JObj ps)
  from extractTableName_JObj[OF JObj] show ?thesis unfolding JObj by simp
next
  case (JArr ys)
  show ?thesis
  proof (cases ys)
    case Nil
    with JArr show ?thesis by (simp add: extractTableName_def fromArray_eq fromObject_eq)
  next
    case (Cons x xs)
    from extractTableName_JArr[of v x xs] JArr Cons show ?thesis by simp
  qed
qed (simp_all add: extractTableName_def fromArray_eq fromObject_eq)

lemma extractTableName_total: "\<exists>r. extractTableName v = Some r"
  by (simp add: extractTableName_eq)

text \<open>
  C6, as amended. The extractor never throws, and it returns a string exactly for the
  shapes of \<open>shapeName\<close>, the string being the one that the shape holds: the value is
  a string; or a non-empty sequence whose first element is a string, or has a non-empty
  string in its \<open>table\<close> field, or has there a value with a string in its own \<open>table\<close>
  field; or an object with a string in its \<open>table\<close> field, or with a value there that
  has a non-empty string in its own \<open>table\<close> field.
\<close>

theorem extractTableName_string_iff_shape:
  "(\<exists>r. extractTableName v = Some r) \<and>
   (extractTableName v = Some (JStr t) \<longleftrightarrow> shapeName v = Some t)"
proof (rule conjI)
  show "\<exists>r. extractTableName v = Some r" by (rule extractTableName_total)
next
  have inner: "(case readProp i ''table'' of JStr s \<Rightarrow> Some s | _ \<Rightarrow> None) = Some t \<longleftrightarrow> readProp i ''table'' = JStr t"
    for i by (cases "readProp i ''table''") auto
  have inner': "(case readProp i ''table'' of JStr s \<Rightarrow> if s \<noteq> [] then Some s else None | _ \<Rightarrow> None) = Some t \<longleftrightarrow> 
       truthy (readProp i ''table'') \<and> readProp i ''table'' = JStr t"
    for i by (cases "readProp i ''table''") auto
  show "extractTableName v = Some (JStr t) \<longleftrightarrow> shapeName v = Some t"
  proof (cases v)
    case (JObj ps)
    show ?thesis
      unfolding extractTableName_eq shapeName_def JObj
      by (cases "readProp (JObj ps) ''table''") (auto simp add: inner' simp del: readProp.simps)
  next
    case (JArr ys)
    show ?thesis
    proof (cases ys)
      case Nil
      then show ?thesis unfolding JArr by (simp add: extractTableName_eq shapeName_def)
    next
      case (Cons x xs)
      have "(case x of
             JStr t \<Rightarrow> x
           | _ \<Rightarrow>
             if truthy (readProp x ''table'') then
               (case readProp x ''table'' of
                  JStr t \<Rightarrow> JStr t
                | inner \<Rightarrow> readProp inner ''table'')
             else JNull) = JStr t \<longleftrightarrow> 
          (case x of
             JStr t \<Rightarrow> Some t
           | _ \<Rightarrow>
             (case readProp x ''table'' of
                JStr t \<Rightarrow> if t \<noteq> [] then Some t else None
              | inner \<Rightarrow> (case readProp inner ''table'' of JStr t \<Rightarrow> Some t | _ \<Rightarrow> None))) = Some t"
      proof (cases "\<exists>s. x = JStr s")
        case True
        then show ?thesis by auto
      next
        case False
        have f: "\<not> truthy (readProp x ''table'') \<Longrightarrow> readProp (readProp x ''table'') ''table'' = JUndefined \<or> readProp x ''table'' = JStr []"
          by (cases "readProp x ''table''") simp_all
        have "(if truthy (readProp x ''table'') then
               (case readProp x ''table'' of
                  JStr t \<Rightarrow> JStr t
                | inner \<Rightarrow> readProp inner ''table'')
             else JNull) = JStr t \<longleftrightarrow> 
             (case readProp x ''table'' of
                JStr t \<Rightarrow> if t \<noteq> [] then Some t else None
              | inner \<Rightarrow> (case readProp inner ''table'' of JStr t \<Rightarrow> Some t | _ \<Rightarrow> None)) = Some t"
          using f by (cases "readProp x ''table''") (auto simp: inner simp del: readProp.simps)
        with False show ?thesis by (cases x) (simp_all del: readProp.simps)
      qed
      then show ?thesis unfolding JArr Cons extractTableName_eq shapeName_def by simp
    qed
  qed (auto simp: extractTableName_eq shapeName_def)
qed

text \<open>
  A sequence whose first element is a string has none of the shapes (a) to (d) as the
  specification words them, and the extractor returns the string.
\<close>

theorem first_element_string_counterexample:
  "extractTableName (JArr [JStr ''users'']) = Some (JStr ''users'') \<and>
   claimedTableName (JArr [JStr ''users'']) = None"
  by code_simp


subsection \<open>Column names\<close>

lemma extractColumnName_eq:
  assumes "truthy def"
  shows "extractColumnName def =
     Some (case documentedColumnName def of Some c \<Rightarrow> c | None \<Rightarrow> ''unknown'')"
proof -
  define c1 where "c1 = readProp def ''column''"
  define c2 where "c2 = readProp c1 ''column''"
  define c3 where "c3 = readProp c2 ''column''"
  have g1: "get def ''column'' = Some c1" using assms by (simp add: c1_def)
  have doc: "documentedColumnName def =
      (case c1 of JStr c \<Rightarrow> Some c
       | _ \<Rightarrow> (case c2 of JStr c \<Rightarrow> Some c
               | _ \<Rightarrow> (case c3 of JStr c \<Rightarrow> Some c | _ \<Rightarrow> None)))"
    by (simp only: documentedColumnName_def Let_def c3_def c2_def c1_def)
  have third: "(if truthy c2 then do {
             ccc \<leftarrow> get c2 ''column'';
             Some (case ccc of JStr s \<Rightarrow> s | _ \<Rightarrow> ''unknown'')
           } else Some ''unknown'') =
        Some (case c3 of JStr s \<Rightarrow> s | _ \<Rightarrow> ''unknown'')"
  proof (cases "truthy c2")
    case True
    then show ?thesis by (simp add: c3_def)
  next
    case False
    then have "c3 = JUndefined" by (simp add: c3_def readProp_falsy)
    with False show ?thesis by simp
  qed
  have second: "(if truthy c1 then do {
         cc \<leftarrow> get c1 ''column'';
         case cc of
           JStr s \<Rightarrow> Some s
         | _ \<Rightarrow>
           if truthy cc then do {
             ccc \<leftarrow> get cc ''column'';
             Some (case ccc of JStr s \<Rightarrow> s | _ \<Rightarrow> ''unknown'')
           } else Some ''unknown''
       } else Some ''unknown'') =
       Some (case c2 of JStr s \<Rightarrow> s | _ \<Rightarrow> (case c3 of JStr s \<Rightarrow> s | _ \<Rightarrow> ''unknown''))"
  proof (cases "truthy c1")
    case True
    then have g2: "get c1 ''column'' = Some c2" by (simp add: c2_def)
    show ?thesis
    proof (cases c2 rule: string_or_not)
      case (string s)
      with True g2 show ?thesis by simp
    next
      case other
      with True g2 third show ?thesis by (simp add: case_not_JStr[OF other])
    qed
  next
    case False
    then have "c2 = JUndefined" by (simp add: c2_def readProp_falsy)
    moreover from this have "c3 = JUndefined" by (simp add: c3_def)
    ultimately show ?thesis using False by simp
  qed
  show ?thesis
  proof (cases c1 rule: string_or_not)
    case (string s)
    then show ?thesis by (simp add: extractColumnName_def g1 doc)
  next
    case other
    have "extractColumnName def =
        Some (case c2 of JStr s \<Rightarrow> s | _ \<Rightarrow> (case c3 of JStr s \<Rightarrow> s | _ \<Rightarrow> ''unknown''))"
      unfolding extractColumnName_def g1 using second by (simp add: case_not_JStr[OF other])
    also have "(case c2 of JStr s \<Rightarrow> s | _ \<Rightarrow> (case c3 of JStr s \<Rightarrow> s | _ \<Rightarrow> ''unknown'')) =
        (case documentedColumnName def of Some c \<Rightarrow> c | None \<Rightarrow> ''unknown'')"
      unfolding doc case_not_JStr[OF other]
      by (cases c2 rule: string_or_not; cases c3 rule: string_or_not) (simp_all add: case_not_JStr)
    finally show ?thesis .
  qed
qed

subsection \<open>Type strings\<close>

lemma buildDataType_eq:
  assumes "truthy d"
  shows "buildDataType d =
     map_option
       (\<lambda>suffix. (case documentedTypeTag d of Some t \<Rightarrow> toUpperCase t | None \<Rightarrow> ''unknown'') @ suffix)
       (typeSuffix (declared ''length'' d) (declared ''scale'' d))"
proof -
  define dt where "dt = readProp d ''dataType''"
  have g: "get d k = Some (readProp d k)" for k using assms by simp
  have base: "(case dt of
             JStr s \<Rightarrow> Some (toUpperCase s)
           | _ \<Rightarrow>
             if truthy dt then do {
               inner \<leftarrow> get dt ''dataType'';
               Some (case inner of JStr s \<Rightarrow> toUpperCase s | _ \<Rightarrow> ''unknown'')
             } else Some ''unknown'') =
        Some (case documentedTypeTag d of Some t \<Rightarrow> toUpperCase t | None \<Rightarrow> ''unknown'')"
  proof (cases dt rule: string_or_not)
    case (string s)
    then show ?thesis by (simp add: documentedTypeTag_def Let_def dt_def[symmetric])
  next
    case other
    show ?thesis
    proof (cases "truthy dt")
      case True
      then show ?thesis
        unfolding documentedTypeTag_def Let_def dt_def[symmetric] case_not_JStr[OF other]
        by (cases "readProp dt ''dataType''" rule: string_or_not) (simp_all add: case_not_JStr)
    next
      case False
      then have "readProp dt ''dataType'' = JUndefined" by (simp add: readProp_falsy)
      with False show ?thesis
        unfolding documentedTypeTag_def Let_def dt_def[symmetric] case_not_JStr[OF other] by simp
    qed
  qed
  have found: "(if present (readProp d f) then Some (readProp d f)
           else if truthy dt then do {
             inner \<leftarrow> get dt f;
             Some (if present inner then inner else JNull)
           } else Some JNull) = Some (declared f d)" for f
    by (simp add: declared_def Let_def dt_def[symmetric])
  have compose: "(if present len then
          (if present scl then do {
             l \<leftarrow> toStringJS len;
             s \<leftarrow> toStringJS scl;
             Some (b @ ''('' @ l @ '','' @ s @ '')'')
           } else do {
             l \<leftarrow> toStringJS len;
             Some (b @ ''('' @ l @ '')'')
           })
        else Some b) = map_option (\<lambda>suffix. b @ suffix) (typeSuffix len scl)" for len scl b
    by (simp add: typeSuffix_def split: Option.bind_split)
  show ?thesis
    unfolding buildDataType_def
    using assms by (simp add: g dt_def[symmetric] base found compose)
qed

lemma buildDataType_falsy: "\<not> truthy d \<Longrightarrow> buildDataType d = Some ''unknown''"
  by (simp add: buildDataType_def)

subsection \<open>Plain trees\<close>

lemma those_Some: "(\<forall>x \<in> set xs. x \<noteq> None) \<Longrightarrow> \<exists>ys. those xs = Some ys"
  by (induction xs) auto

lemma toStringJS_plain: "plain v \<Longrightarrow> \<exists>s. toStringJS v = Some s"
proof (induction v rule: toStringJS.induct)
  case (6 xs)
  have "\<forall>y \<in> set (map (\<lambda>x. if x = JNull \<or> x = JUndefined then Some [] else toStringJS x) xs). y \<noteq> None"
    using 6 by auto
  from those_Some[OF this] show ?case by auto
qed auto

lemma plain_readProp: "plain v \<Longrightarrow> plain (readProp v k)"
proof (cases v)
  case (JObj ps)
  assume "plain v"
  with JObj show ?thesis
    by (auto split: option.splits dest: map_of_SomeD)
qed simp_all

lemma plain_declared: "plain d \<Longrightarrow> plain (declared f d)"
  by (simp add: declared_def Let_def plain_readProp)

lemma typeSuffix_plain: "plain l \<Longrightarrow> plain s \<Longrightarrow> \<exists>r. typeSuffix l s = Some r"
  using toStringJS_plain[of l] toStringJS_plain[of s] by (auto simp: typeSuffix_def)


lemma buildDataType_plain: "plain d \<Longrightarrow> \<exists>r. buildDataType d = Some r"
proof (cases "truthy d")
  case True
  assume "plain d"
  then obtain r where "typeSuffix (declared ''length'' d) (declared ''scale'' d) = Some r"
    using typeSuffix_plain plain_declared by blast
  with True show ?thesis by (simp add: buildDataType_eq)
next
  case False
  then show ?thesis by (simp add: buildDataType_falsy)
qed

lemma makeColumn_plain:
  assumes "isColumnDef def" and "plain def"
  shows "\<exists>c. makeColumn def = Some c"
proof -
  from assms(1) have t: "truthy def" by (simp add: isColumnDef_def)
  from assms(2) obtain r where "buildDataType (readProp def ''definition'') = Some r"
    using buildDataType_plain plain_readProp by blast
  with t show ?thesis by (simp add: makeColumn_def extractColumnName_eq)
qed

lemma mapThrows_Some: "(\<forall>x \<in> set xs. \<exists>y. f x = Some y) \<Longrightarrow> \<exists>ys. mapThrows f xs = Some ys"
  by (induction xs) auto

lemma extractColumns_plain: "plain defs \<Longrightarrow> \<exists>cols. extractColumns defs = Some cols"
proof (cases defs)
  case (JArr ds)
  assume "plain defs"
  with JArr have "\<forall>x \<in> set (filter isColumnDef ds). \<exists>y. makeColumn x = Some y"
    by (auto intro: makeColumn_plain)
  from mapThrows_Some[OF this] JArr show ?thesis by (simp add: extractColumns_def)
qed (simp_all add: extractColumns_def)

subsection \<open>The type of a column without a declared length\<close>

text \<open>
  C5. The type-string builder appends nothing to a type without length and scale: \<open>INT\<close>
  gives \<open>INT\<close>. The code does not do so when the type tag is a string, as the parser
  gives it: the fallback for the length reads \<open>definition.dataType.length\<close>, which on
  the string \<open>INT\<close> is the number of its characters, and the result is \<open>INT(3)\<close>.
\<close>

theorem buildDataType_takes_tag_length:
  "buildDataType (JObj [(''dataType'', JStr ''INT'')]) = Some ''INT(3)''"
  by code_simp

subsection \<open>One statement\<close>

lemma isStatement_get [simp]: "isStatement s \<Longrightarrow> get s k = Some (readProp s k)"
  by (simp add: isStatement_def)

lemma processStatement_cases:
 "processStatement w s = 
   (case useValue s of Some v \<Rightarrow> Some (w\<lparr>result_databaseName := v\<rparr>)
    | None \<Rightarrow> (case createdName s of
       Some n \<Rightarrow> map_option (\<lambda>cols. w\<lparr>tableMap := mapSet n \<lparr>tableName = n, columns = cols, rowCount = 0\<rparr> (tableMap w)\<rparr>) (extractColumns (readProp s ''create_definitions''))
    | None \<Rightarrow> (case insertedName s of
       Some n \<Rightarrow> Some (if mapHas n (tableMap w) then w\<lparr>tableMap := addRows n (insertSize s) (tableMap w)\<rparr> else w)
    | None \<Rightarrow> Some w)))"
proof (cases "isStatement s")
  case False
  then have "processStatement w s = Some w" by (auto simp: processStatement_def isStatement_def)
  moreover from False have "useValue s = None" "createdName s = None" "insertedName s = None"
    by (simp_all add: useValue_def createdName_def insertedName_def hasKind_def)
  ultimately show ?thesis by simp
next
  case True
  note st = True
  obtain n where n: "extractTableName (readProp s ''table'') = Some n" using extractTableName_total by blast
  have p: "processStatement w s = (let ty = readProp s ''type'' in 
        if ty = JStr ''use'' then
          (let db = readProp s ''db'' in if truthy db then
            Some (w\<lparr>result_databaseName := (case db of
                 JStr s \<Rightarrow> db | _ \<Rightarrow> if truthy (readProp db ''db'') then readProp db ''db'' else db)\<rparr>)
           else Some w)
        else if ty = JStr ''create'' then
          (if readProp s ''keyword'' = JStr ''table'' \<and> truthy (readProp s ''table'') then
            (if truthy n then map_option (\<lambda>cols. w\<lparr>tableMap := mapSet n \<lparr>tableName = n, columns = cols, rowCount = 0\<rparr> (tableMap w)\<rparr>) (extractColumns (readProp s ''create_definitions''))
             else Some w)
           else Some w)
        else if ty = JStr ''insert'' then
          (if truthy (readProp s ''table'') \<and> truthy n \<and> mapHas n (tableMap w) then Some (w\<lparr>tableMap := addRows n (insertSize s) (tableMap w)\<rparr>) else Some w)
        else Some w)"
    using st n unfolding processStatement_def isStatement_def
    apply (simp add: Let_def insertSize_def)
    apply (auto split: jsval.splits simp: map_option_case split: option.splits)
    done
  show ?thesis unfolding p using st n
    by (auto simp: useValue_def createdName_def insertedName_def hasKind_def namedTable_def Let_def)
qed

lemma useValue_excl: "useValue s = Some v \<Longrightarrow> createdName s = None \<and> insertedName s = None"
  by (auto simp: useValue_def createdName_def insertedName_def hasKind_def Let_def split: if_splits)

lemma createdName_excl: "createdName s = Some n \<Longrightarrow> insertedName s = None"
  by (auto simp: createdName_def insertedName_def hasKind_def split: if_splits)

lemma processStatement_plain: "plain s \<Longrightarrow> \<exists>w'. processStatement w s = Some w'"
proof -
  assume "plain s"
  then obtain cols where "extractColumns (readProp s ''create_definitions'') = Some cols"
    using extractColumns_plain plain_readProp by blast
  then show ?thesis by (simp add: processStatement_cases split: option.splits)
qed

lemma processStatement_skip:
  "\<not> truthy statement \<or> typeof statement \<noteq> ''object'' \<Longrightarrow> processStatement w statement = Some w"
  by (simp add: processStatement_def)

lemma processStatement_unknown_type:
  assumes "readProp (JObj ps) ''type'' \<noteq> JStr ''use''"
    and "readProp (JObj ps) ''type'' \<noteq> JStr ''create''"
    and "readProp (JObj ps) ''type'' \<noteq> JStr ''insert''"
  shows "processStatement w (JObj ps) = Some w"
  using assms by (simp add: processStatement_def)

text \<open>
  C3. A top-level input that is not an array, and that is not an object either or is
  an object without one of the statement kinds \<open>use\<close>, \<open>create\<close> and \<open>insert\<close>, gives
  the empty result, and the analyzer does not throw.
\<close>

theorem malformed_input_gives_empty_result:
  assumes "\<not> isArray ast"
    and "ast = JNull \<or> typeof ast \<noteq> ''object'' \<or>
         readProp ast ''type'' \<notin> {JStr ''use'', JStr ''create'', JStr ''insert''}"
  shows "analyzeSqlAst ast = Some \<lparr>databaseName = JNull, totalTables = 0, tables = []\<rparr>"
proof (cases ast)
  case (JObj ps)
  with assms(2) have "processStatement start ast = Some start"
    by (simp add: processStatement_unknown_type)
  with JObj show ?thesis by (simp add: analyzeSqlAst_def start_def statementsOf_def)
next
  case (JArr xs)
  with assms(1) show ?thesis by simp
qed (simp_all add: analyzeSqlAst_def processStatement_skip start_def statementsOf_def)

theorem malformed_input_witness:
  "analyzeSqlAst JNull = Some \<lparr>databaseName = JNull, totalTables = 0, tables = []\<rparr> \<and>
   analyzeSqlAst (JStr ''garbage'') = Some \<lparr>databaseName = JNull, totalTables = 0, tables = []\<rparr> \<and>
   analyzeSqlAst (JObj [(''type'', JStr ''select'')]) =
     Some \<lparr>databaseName = JNull, totalTables = 0, tables = []\<rparr>"
  using malformed_input_gives_empty_result [of JNull]
    malformed_input_gives_empty_result [of "JStr ''garbage''"]
    malformed_input_gives_empty_result [of "JObj [(''type'', JStr ''select'')]"]
  by simp

text \<open>
  C10. A \<open>create\<close> statement of a table whose name is extracted and whose list of
  definitions is not an array sets, in whatever state of the walk, the entry of the
  table with no columns and no rows, and alone it gives a result with that one table.
  An element of the definition list that is not a column definition can be left out
  without any change to the extracted columns.
\<close>

theorem create_without_definitions:
  "(createdName s = Some n \<and> \<not> isArray (readProp s ''create_definitions'') \<longrightarrow>
      processStatement w s =
        Some (w\<lparr>tableMap :=
          mapSet n \<lparr>tableName = n, columns = [], rowCount = 0\<rparr> (tableMap w)\<rparr>) \<and>
      analyzeSqlAst (JArr [s]) =
        Some \<lparr>databaseName = JNull, totalTables = 1,
              tables = [\<lparr>tableName = n, columns = [], rowCount = 0\<rparr>]\<rparr>) \<and>
   (\<not> isColumnDef d \<longrightarrow>
      extractColumns (JArr (xs @ d # ys)) = extractColumns (JArr (xs @ ys)))"
proof (intro conjI impI)
  assume a: "createdName s = Some n \<and> \<not> isArray (readProp s ''create_definitions'')"
  then have u: "useValue s = None"
    by (auto simp: useValue_def createdName_def hasKind_def Let_def split: if_splits)
  from a have cols: "extractColumns (readProp s ''create_definitions'') = Some []"
    by (cases "readProp s ''create_definitions''") (simp_all add: extractColumns_def)
  with a u show step: "processStatement w s =
      Some (w\<lparr>tableMap := mapSet n \<lparr>tableName = n, columns = [], rowCount = 0\<rparr> (tableMap w)\<rparr>)" for w
    by (simp add: processStatement_cases)
  show "analyzeSqlAst (JArr [s]) =
      Some \<lparr>databaseName = JNull, totalTables = 1,
            tables = [\<lparr>tableName = n, columns = [], rowCount = 0\<rparr>]\<rparr>"
    by (simp add: analyzeSqlAst_def statementsOf_def step start_def)
next
  assume "\<not> isColumnDef d"
  then show "extractColumns (JArr (xs @ d # ys)) = extractColumns (JArr (xs @ ys))"
    by (simp add: extractColumns_def)
qed

theorem create_without_definitions_witness:
  "analyzeSqlAst (JArr [create_stmt ''items'' JNull]) =
     Some \<lparr>databaseName = JNull, totalTables = 1,
           tables = [\<lparr>tableName = JStr ''items'', columns = [], rowCount = 0\<rparr>]\<rparr> \<and>
   extractColumns (JArr ([column_def ''a'' JNull] @ primary_key # [column_def ''b'' JNull])) =
     extractColumns (JArr ([column_def ''a'' JNull] @ [column_def ''b'' JNull])) \<and>
   extractColumns (JArr ([column_def ''a'' JNull] @ [column_def ''b'' JNull])) =
     Some [\<lparr>columnName = ''a'', dataType = ''unknown''\<rparr>,
           \<lparr>columnName = ''b'', dataType = ''unknown''\<rparr>]"
proof -
  have c: "createdName (create_stmt ''items'' JNull) = Some (JStr ''items'')"
    by code_simp
  have d: "\<not> isArray (readProp (create_stmt ''items'' JNull) ''create_definitions'')"
    by code_simp
  have k: "\<not> isColumnDef primary_key"
    by code_simp
  have e: "extractColumns (JArr ([column_def ''a'' JNull] @ [column_def ''b'' JNull])) =
     Some [\<lparr>columnName = ''a'', dataType = ''unknown''\<rparr>,
           \<lparr>columnName = ''b'', dataType = ''unknown''\<rparr>]"
    by code_simp
  from create_without_definitions[of "create_stmt ''items'' JNull" "JStr ''items''" start
      primary_key "[column_def ''a'' JNull]" "[column_def ''b'' JNull]"] c d k e
  show ?thesis by simp
qed


subsection \<open>Names and types that are not found\<close>

text \<open>
  C8, as amended. For a retained entry of the definition list, which is truthy, the
  extraction of the column name does not throw and gives \<open>unknown\<close> when no name is
  found under the documented shapes. When no type tag is found under the documented
  shapes, the data type is \<open>unknown\<close> followed by the suffix of the composition rule
  for the length and the scale that the builder finds; it is \<open>unknown\<close> alone when
  the definition is falsy or no length is found. What is not found does not make the
  code throw: the builder throws only when the conversion of a found length or scale to
  a string does, and a plain statement is processed without an exception.
\<close>

theorem unknown_fallbacks:
  "(truthy def \<longrightarrow>
      extractColumnName def =
        Some (case documentedColumnName def of Some c \<Rightarrow> c | None \<Rightarrow> ''unknown'')) \<and>
   (documentedTypeTag d = None \<longrightarrow>
      buildDataType d =
        (if truthy d
         then map_option (\<lambda>suffix. ''unknown'' @ suffix)
                (typeSuffix (declared ''length'' d) (declared ''scale'' d))
         else Some ''unknown'')) \<and>
   (documentedTypeTag d = None \<and> \<not> present (declared ''length'' d) \<longrightarrow>
      buildDataType d = Some ''unknown'') \<and>
   (buildDataType d = None \<longrightarrow>
      toStringJS (declared ''length'' d) = None \<or> toStringJS (declared ''scale'' d) = None) \<and>
   (plain s \<longrightarrow> (\<exists>w'. processStatement w s = Some w'))"
proof (intro conjI impI)
  assume "truthy def"
  then show "extractColumnName def =
      Some (case documentedColumnName def of Some c \<Rightarrow> c | None \<Rightarrow> ''unknown'')"
    by (rule extractColumnName_eq)
next
  assume "documentedTypeTag d = None"
  then show "buildDataType d =
        (if truthy d
         then map_option (\<lambda>suffix. ''unknown'' @ suffix)
                (typeSuffix (declared ''length'' d) (declared ''scale'' d))
         else Some ''unknown'')"
    by (simp add: buildDataType_eq buildDataType_falsy)
next
  assume "documentedTypeTag d = None \<and> \<not> present (declared ''length'' d)"
  then show "buildDataType d = Some ''unknown''"
    by (cases "truthy d") (simp_all add: buildDataType_eq buildDataType_falsy typeSuffix_def)
next
  assume none: "buildDataType d = None"
  then have "truthy d" using buildDataType_falsy[of d] by auto
  with none have "typeSuffix (declared ''length'' d) (declared ''scale'' d) = None"
    by (simp add: buildDataType_eq)
  then show "toStringJS (declared ''length'' d) = None \<or> toStringJS (declared ''scale'' d) = None"
    by (auto simp: typeSuffix_def split: if_splits Option.bind_splits)
next
  assume "plain s"
  then show "\<exists>w'. processStatement w s = Some w'"
    by (rule processStatement_plain)
qed

theorem unknown_fallbacks_witness:
  "extractColumnName (JObj [(''resource'', JStr ''column'')]) = Some ''unknown'' \<and>
   buildDataType (JObj [(''length'', JNum 50), (''scale'', JNum 2)]) = Some ''unknown(50,2)'' \<and>
   buildDataType (JObj [(''scale'', JNum 2)]) = Some ''unknown'' \<and>
   buildDataType (JObj [(''length'', JObj [(''toString'', JNum 1)])]) = None \<and>
   toStringJS (JObj [(''toString'', JNum 1)]) = None \<and>
   (\<exists>w'. processStatement start
      (create_stmt ''items'' (JArr [JObj [(''resource'', JStr ''column'')]])) = Some w')"
proof -
  have 1: "truthy (JObj [(''resource'', JStr ''column'')])" by simp
  have 2: "documentedTypeTag (JObj [(''length'', JNum 50), (''scale'', JNum 2)]) = None"
    by code_simp
  have 3: "documentedTypeTag (JObj [(''scale'', JNum 2)]) = None \<and>
      \<not> present (declared ''length'' (JObj [(''scale'', JNum 2)]))"
    by code_simp
  have 4: "documentedColumnName (JObj [(''resource'', JStr ''column'')]) = None"
    by code_simp
  have 5: "typeSuffix (declared ''length'' (JObj [(''length'', JNum 50), (''scale'', JNum 2)]))
      (declared ''scale'' (JObj [(''length'', JNum 50), (''scale'', JNum 2)])) = Some ''(50,2)''"
    by code_simp
  have 6: "buildDataType (JObj [(''length'', JObj [(''toString'', JNum 1)])]) = None"
    by code_simp
  have 7: "declared ''length'' (JObj [(''length'', JObj [(''toString'', JNum 1)])]) =
      JObj [(''toString'', JNum 1)]"
    by code_simp
  have 8: "declared ''scale'' (JObj [(''length'', JObj [(''toString'', JNum 1)])]) = JNull"
    by code_simp
  have 9: "plain (create_stmt ''items'' (JArr [JObj [(''resource'', JStr ''column'')]]))"
    by (simp add: create_stmt_def table_ref_def)
  note a = unknown_fallbacks[of "JObj [(''resource'', JStr ''column'')]"
      "JObj [(''length'', JNum 50), (''scale'', JNum 2)]", THEN conjunct1, rule_format, OF 1]
  note b = unknown_fallbacks[of "JObj [(''resource'', JStr ''column'')]"
      "JObj [(''length'', JNum 50), (''scale'', JNum 2)]", THEN conjunct2, THEN conjunct1,
      rule_format, OF 2]
  note c = unknown_fallbacks[of "JObj [(''resource'', JStr ''column'')]"
      "JObj [(''scale'', JNum 2)]", THEN conjunct2, THEN conjunct2, THEN conjunct1,
      rule_format, OF 3]
  note d = unknown_fallbacks[of "JObj [(''resource'', JStr ''column'')]"
      "JObj [(''length'', JObj [(''toString'', JNum 1)])]", THEN conjunct2, THEN conjunct2,
      THEN conjunct2, THEN conjunct1, rule_format, OF 6]
  note e = unknown_fallbacks[of "JObj [(''resource'', JStr ''column'')]" JNull
      "create_stmt ''items'' (JArr [JObj [(''resource'', JStr ''column'')]])" start,
      THEN conjunct2, THEN conjunct2, THEN conjunct2, THEN conjunct2, rule_format, OF 9]
  from a 4 have "extractColumnName (JObj [(''resource'', JStr ''column'')]) = Some ''unknown''"
    by simp
  moreover from b 5
  have "buildDataType (JObj [(''length'', JNum 50), (''scale'', JNum 2)]) = Some ''unknown(50,2)''"
    by simp
  moreover from d 7 8 have "toStringJS (JObj [(''toString'', JNum 1)]) = None"
    by simp
  ultimately show ?thesis using c 6 e by simp
qed

text \<open>
  A definition with a length and without a type tag: the data type is not \<open>unknown\<close>.
\<close>

theorem unknown_with_length_counterexample:
  "documentedTypeTag (JObj [(''length'', JNum 50)]) = None \<and>
   buildDataType (JObj [(''length'', JNum 50)]) = Some ''unknown(50)'' \<and>
   extractColumns (JArr [column_def ''c'' (JObj [(''length'', JNum 50)])]) =
     Some [\<lparr>columnName = ''c'', dataType = ''unknown(50)''\<rparr>]"
  by code_simp


subsection \<open>Keys\<close>

lemma sameValueZero_iff: "sameValueZero a b \<longleftrightarrow> a = b \<and> isPrimitive a"
  by (cases a) (auto simp: isPrimitive_def)

lemma sameValueZero_sym: "sameValueZero a b = sameValueZero b a"
  by (auto simp: sameValueZero_iff)

lemma set_firstSeen [simp]: "set (firstSeen ks) = set ks"
proof (induction ks rule: firstSeen.induct)
  case 1
  show ?case by simp
next
  case (2 k ks)
  have "set (filter (\<lambda>b. \<not> sameValueZero k b) ks) \<union> {k} = set ks \<union> {k}"
    by (auto simp: sameValueZero_iff)
  with 2 show ?case by simp
qed

lemma firstSeen_snoc:
  "firstSeen (ks @ [k]) = (if list_ex (\<lambda>a. sameValueZero a k) ks then firstSeen ks else firstSeen ks @ [k])"
proof (induction ks rule: firstSeen.induct)
  case 1
  show ?case by simp
next
  case (2 x ks)
  let ?P = "\<lambda>b. \<not> sameValueZero x b"
  show ?case
  proof (cases "sameValueZero x k")
    case True
    then show ?thesis by (simp)
  next
    case False
    have "list_ex (\<lambda>a. sameValueZero a k) (filter ?P ks) = list_ex (\<lambda>a. sameValueZero a k) ks"
      using False by (auto simp: list_ex_iff sameValueZero_iff)
    with False 2 show ?thesis by simp
  qed
qed

lemma distinct_firstSeen: "distinct (filter isPrimitive (firstSeen ks))"
proof (induction ks rule: firstSeen.induct)
  case 1
  show ?case by simp
next
  case (2 k ks)
  have "isPrimitive k \<Longrightarrow> k \<notin> set (filter (\<lambda>b. \<not> sameValueZero k b) ks)"
    by (simp add: sameValueZero_iff)
  with 2 show ?case by simp
qed


subsection \<open>The walk over the statements\<close>

lemma forEach_snoc: "forEach f (xs @ [x]) s = Option.bind (forEach f xs s) (\<lambda>s'. f s' x)"
  by (induction xs arbitrary: s) (auto split: Option.bind_split)

text \<open>The last step of a walk, by the kind of the last statement.\<close>

lemma walk_snoc_cases:
  assumes "forEach processStatement (xs @ [x]) s = Some w"
  obtains
    (use) w' v where "forEach processStatement xs s = Some w'"
      "useValue x = Some v" "createdName x = None" "insertedName x = None"
      "w = w'\<lparr>result_databaseName := v\<rparr>"
  | (create) w' n cols where "forEach processStatement xs s = Some w'"
      "useValue x = None" "createdName x = Some n" "insertedName x = None"
      "extractColumns (readProp x ''create_definitions'') = Some cols"
      "w = w'\<lparr>tableMap := mapSet n \<lparr>tableName = n, columns = cols, rowCount = 0\<rparr> (tableMap w')\<rparr>"
  | (insert) w' n where "forEach processStatement xs s = Some w'"
      "useValue x = None" "createdName x = None" "insertedName x = Some n"
      "mapHas n (tableMap w')"
      "w = w'\<lparr>tableMap := addRows n (insertSize x) (tableMap w')\<rparr>"
  | (skip) "forEach processStatement xs s = Some w"
      "useValue x = None" "createdName x = None"
      "\<And>n. insertedName x = Some n \<Longrightarrow> \<not> mapHas n (tableMap w)"
proof -
  from assms obtain w' where w': "forEach processStatement xs s = Some w'"
    and step: "processStatement w' x = Some w"
    by (auto simp: forEach_snoc split: Option.bind_splits)
  show ?thesis
  proof (cases "useValue x")
    case (Some v)
    with step useValue_excl[OF Some] w' use show ?thesis
      by (simp add: processStatement_cases)
  next
    case None
    note u = None
    show ?thesis
    proof (cases "createdName x")
      case (Some n)
      with step u createdName_excl[OF Some] w' create show ?thesis
        by (auto simp add: processStatement_cases)
    next
      case None
      note c = None
      show ?thesis
      proof (cases "insertedName x")
        case None
        with step u c w' skip show ?thesis by (simp add: processStatement_cases)
      next
        case (Some n)
        show ?thesis
        proof (cases "mapHas n (tableMap w')")
          case True
          with Some step u c w' insert show ?thesis by (simp add: processStatement_cases)
        next
          case False
          with Some step u c w' skip show ?thesis by (simp add: processStatement_cases)
        qed
      qed
    qed
  qed
qed


subsection \<open>The specification, one statement further\<close>

lemma createdNames_snoc:
  "createdNames (xs @ [x]) = createdNames xs @ (case createdName x of Some n \<Rightarrow> [n] | None \<Rightarrow> [])"
  by (simp add: createdNames_def List.map_filter_def split: option.splits)

lemma afterLastCreate_snoc:
  "afterLastCreate k (xs @ [x]) = (if creates k x then [] else afterLastCreate k xs @ [x])"
  by (simp add: afterLastCreate_def)

lemma countedRows_snoc:
  "countedRows k (xs @ [x]) =
     (if creates k x then 0
      else countedRows k xs + (if insertsInto k x then insertSize x else 0))"
  by (simp add: countedRows_def afterLastCreate_snoc)

lemma declaredColumns_snoc:
  "declaredColumns k (xs @ [x]) =
     (if creates k x then extractColumns (readProp x ''create_definitions'')
      else declaredColumns k xs)"
  by (simp add: declaredColumns_def)

lemma lastUse_snoc:
  "lastUse (xs @ [x]) = (case useValue x of Some v \<Rightarrow> v | None \<Rightarrow> lastUse xs)"
proof -
  have "lastUse ys = last (JNull # List.map_filter useValue ys)" for ys
    by (simp add: lastUse_def split: list.splits)
  then show ?thesis
    by (simp add: List.map_filter_def split: option.splits)
qed

subsection \<open>The table map\<close>

lemma mapHas_iff: "mapHas k m \<longleftrightarrow> k \<in> set (map tableName m) \<and> isPrimitive k"
  by (auto simp: mapHas_def list_ex_iff sameValueZero_iff)

lemma names_mapSet:
  "tableName v = k \<Longrightarrow>
   map tableName (mapSet k v m) = (if mapHas k m then map tableName m else map tableName m @ [k])"
  by (induction m) (auto simp: mapHas_def sameValueZero_iff)

lemma names_addRows [simp]: "map tableName (addRows k n m) = map tableName m"
  by (induction m) auto

text \<open>When no key occurs twice, \<open>set\<close> replaces the one entry under the key, or adds one,
  and \<open>get\<close> finds the one entry under the key.\<close>

lemma distinct_keys_unique:
  assumes "distinct (filter isPrimitive (map tableName (t # ts)))"
    and "sameValueZero (tableName t) k"
  shows "\<forall>u \<in> set ts. \<not> sameValueZero (tableName u) k"
proof
  fix u assume u: "u \<in> set ts"
  from assms(2) have k: "tableName t = k" "isPrimitive k" by (auto simp: sameValueZero_iff)
  with assms(1) have "k \<notin> set (map tableName ts)" by simp
  with u have "tableName u \<noteq> k" by auto
  then show "\<not> sameValueZero (tableName u) k" by (simp add: sameValueZero_iff)
qed

lemma countedRows_not_primitive: "\<not> isPrimitive k \<Longrightarrow> countedRows k xs = 0"
proof -
  assume "\<not> isPrimitive k"
  then have "filter (insertsInto k) ys = []" for ys
    by (simp add: filter_empty_conv insertsInto_def sameValueZero_iff split: option.splits)
  then show ?thesis by (simp add: countedRows_def)
qed

lemma set_mapSet:
  "distinct (filter isPrimitive (map tableName m)) \<Longrightarrow>
   set (mapSet k v m) = insert v {t \<in> set m. \<not> sameValueZero (tableName t) k}"
proof (induction m)
  case Nil
  show ?case by simp
next
  case (Cons t ts)
  show ?case
  proof (cases "sameValueZero (tableName t) k")
    case True
    have "\<forall>u \<in> set ts. \<not> sameValueZero (tableName u) k"
      using distinct_keys_unique[OF Cons.prems True] .
    with True show ?thesis by auto
  next
    case False
    with Cons show ?thesis by (auto split: if_splits)
  qed
qed

lemma set_addRows:
  "distinct (filter isPrimitive (map tableName m)) \<Longrightarrow>
   set (addRows k n m) =
     (\<lambda>t. t\<lparr>rowCount := rowCount t + n\<rparr>) ` {t \<in> set m. sameValueZero (tableName t) k} \<union>
     {t \<in> set m. \<not> sameValueZero (tableName t) k}"
proof (induction m)
  case Nil
  show ?case by simp
next
  case (Cons t ts)
  show ?case
  proof (cases "sameValueZero (tableName t) k")
    case True
    have "\<forall>u \<in> set ts. \<not> sameValueZero (tableName u) k"
      using distinct_keys_unique[OF Cons.prems True] .
    with True show ?thesis by auto
  next
    case False
    with Cons show ?thesis by (auto split: if_splits)
  qed
qed

subsection \<open>What the walk keeps\<close>

lemma walk_names:
  "forEach processStatement xs start = Some w \<Longrightarrow>
   map tableName (tableMap w) = firstSeen (createdNames xs)"
proof (induction xs arbitrary: w rule: rev_induct)
  case Nil
  then show ?case by (auto simp: start_def createdNames_def)
next
  case (snoc x xs)
  from snoc.prems show ?case
  proof (cases rule: walk_snoc_cases)
    case (use w' v)
    with snoc.IH[of w'] show ?thesis by (simp add: createdNames_snoc)
  next
    case (create w' n cols)
    have "mapHas n (tableMap w') = list_ex (\<lambda>a. sameValueZero a n) (createdNames xs)"
      using snoc.IH[OF create(1)] by (auto simp: mapHas_iff list_ex_iff sameValueZero_iff)
    with create snoc.IH[of w'] show ?thesis
      by (simp add: createdNames_snoc names_mapSet firstSeen_snoc)
  next
    case (insert w' n)
    with snoc.IH[of w'] show ?thesis by (simp add: createdNames_snoc)
  next
    case skip
    with snoc.IH[of w] show ?thesis by (simp add: createdNames_snoc)
  qed
qed

lemma walk_distinct:
  "forEach processStatement xs start = Some w \<Longrightarrow>
   distinct (filter isPrimitive (map tableName (tableMap w)))"
  by (simp add: walk_names distinct_firstSeen)

lemma walk_db:
  "forEach processStatement xs start = Some w \<Longrightarrow> result_databaseName w = lastUse xs"
proof (induction xs arbitrary: w rule: rev_induct)
  case Nil
  then show ?case by (auto simp: start_def lastUse_def)
next
  case (snoc x xs)
  from snoc.prems show ?case
  proof (cases rule: walk_snoc_cases)
    case (use w' v)
    then show ?thesis by (simp add: lastUse_snoc)
  next
    case (create w' n cols)
    with snoc.IH[of w'] show ?thesis by (simp add: lastUse_snoc)
  next
    case (insert w' n)
    with snoc.IH[of w'] show ?thesis by (simp add: lastUse_snoc)
  next
    case skip
    with snoc.IH[of w] show ?thesis by (simp add: lastUse_snoc)
  qed
qed

lemma walk_rows:
  "forEach processStatement xs start = Some w \<Longrightarrow> t \<in> set (tableMap w) \<Longrightarrow>
   rowCount t = countedRows (tableName t) xs"
proof (induction xs arbitrary: w t rule: rev_induct)
  case Nil
  then show ?case by (auto simp: start_def)
next
  case (snoc x xs)
  from snoc.prems(1) show ?case
  proof (cases rule: walk_snoc_cases)
    case (use w' v)
    with snoc.IH[of w' t] snoc.prems(2) show ?thesis
      by (simp add: countedRows_snoc creates_def insertsInto_def)
  next
    case (create w' n cols)
    from snoc.prems(2) create(6) walk_distinct[OF create(1)]
    consider "t = \<lparr>tableName = n, columns = cols, rowCount = 0\<rparr>"
      | "t \<in> set (tableMap w')" "\<not> sameValueZero (tableName t) n"
      by (auto simp: set_mapSet)
    then show ?thesis
    proof cases
      case 1
      show ?thesis
      proof (cases "isPrimitive n")
        case True
        with 1 create show ?thesis
          by (simp add: countedRows_snoc creates_def sameValueZero_iff)
      next
        case False
        with 1 show ?thesis by (simp add: countedRows_not_primitive)
      qed
    next
      case 2
      with snoc.IH[OF create(1) 2(1)] create show ?thesis
        by (simp add: countedRows_snoc creates_def insertsInto_def sameValueZero_sym)
    qed
  next
    case (insert w' n)
    from snoc.prems(2) insert(6) walk_distinct[OF insert(1)]
    consider u where "u \<in> set (tableMap w')" "sameValueZero (tableName u) n"
        "t = u\<lparr>rowCount := rowCount u + insertSize x\<rparr>"
      | "t \<in> set (tableMap w')" "\<not> sameValueZero (tableName t) n"
      by (auto simp: set_addRows)
    then show ?thesis
    proof cases
      case 1
      with snoc.IH[OF insert(1) 1(1)] insert show ?thesis
        by (simp add: countedRows_snoc creates_def insertsInto_def sameValueZero_sym)
    next
      case 2
      with snoc.IH[OF insert(1) 2(1)] insert show ?thesis
        by (simp add: countedRows_snoc creates_def insertsInto_def sameValueZero_sym)
    qed
  next
    case skip
    have "\<not> insertsInto (tableName t) x"
    proof (cases "insertedName x")
      case None
      then show ?thesis by (simp add: insertsInto_def)
    next
      case (Some n)
      from skip(4)[OF Some] snoc.prems(2) show ?thesis
        by (auto simp: insertsInto_def Some mapHas_def list_ex_iff sameValueZero_sym)
    qed
    with snoc.IH[OF skip(1) snoc.prems(2)] skip show ?thesis
      by (simp add: countedRows_snoc creates_def)
  qed
qed

lemma walk_columns:
  "forEach processStatement xs start = Some w \<Longrightarrow> t \<in> set (tableMap w) \<Longrightarrow>
   isPrimitive (tableName t) \<Longrightarrow> declaredColumns (tableName t) xs = Some (columns t)"
proof (induction xs arbitrary: w t rule: rev_induct)
  case Nil
  then show ?case by (auto simp: start_def)
next
  case (snoc x xs)
  from snoc.prems(1) show ?case
  proof (cases rule: walk_snoc_cases)
    case (use w' v)
    with snoc.IH[of w' t] snoc.prems(2,3) show ?thesis
      by (simp add: declaredColumns_snoc creates_def)
  next
    case (create w' n cols)
    from snoc.prems(2) create(6) walk_distinct[OF create(1)]
    consider "t = \<lparr>tableName = n, columns = cols, rowCount = 0\<rparr>"
      | "t \<in> set (tableMap w')" "\<not> sameValueZero (tableName t) n"
      by (auto simp: set_mapSet)
    then show ?thesis
    proof cases
      case 1
      with snoc.prems(3) create show ?thesis
        by (simp add: declaredColumns_snoc creates_def sameValueZero_iff)
    next
      case 2
      with snoc.IH[OF create(1) 2(1)] snoc.prems(3) create show ?thesis
        by (simp add: declaredColumns_snoc creates_def sameValueZero_sym)
    qed
  next
    case (insert w' n)
    from snoc.prems(2) insert(6) walk_distinct[OF insert(1)]
    obtain u where "u \<in> set (tableMap w')" "tableName t = tableName u" "columns t = columns u"
      by (auto simp: set_addRows)
    with snoc.IH[OF insert(1), of u] snoc.prems(3) insert show ?thesis
      by (simp add: declaredColumns_snoc creates_def)
  next
    case skip
    with snoc.IH[OF skip(1) snoc.prems(2)] snoc.prems(3) show ?thesis
      by (simp add: declaredColumns_snoc creates_def)
  qed
qed


lemma walk_of_result:
  assumes "analyzeSqlAst ast = Some r"
  obtains w where "forEach processStatement (statementsOf ast) start = Some w"
    "databaseName r = result_databaseName w" "tables r = tableMap w"
    "totalTables r = length (tableMap w)"
  using assms by (auto simp: analyzeSqlAst_def split: Option.bind_splits)

text \<open>On a plain tree the analyzer does not throw.\<close>

lemma forEach_plain:
  "\<forall>s \<in> set stmts. plain s \<Longrightarrow> \<exists>w'. forEach processStatement stmts w = Some w'"
proof (induction stmts arbitrary: w)
  case Nil
  show ?case by simp
next
  case (Cons s stmts)
  then obtain w1 where "processStatement w s = Some w1"
    using processStatement_plain[of s w] by auto
  with Cons show ?case by simp
qed

lemma analyzeSqlAst_returns: "plain ast \<Longrightarrow> \<exists>r. analyzeSqlAst ast = Some r"
proof -
  assume p: "plain ast"
  then have "\<forall>s \<in> set (statementsOf ast). plain s"
    by (cases ast) (simp_all add: statementsOf_def)
  from forEach_plain[OF this, of start]
  obtain w where "forEach processStatement (statementsOf ast) start = Some w" by blast
  then show ?thesis by (simp add: analyzeSqlAst_def)
qed

lemma countedRows_after_last_create:
  assumes "creates k c" and "\<forall>s \<in> set post. \<not> creates k s"
  shows "countedRows k (pre @ c # post) = sum_list (map insertSize (filter (insertsInto k) post))"
proof -
  from assms(2) have "takeWhile (\<lambda>s. \<not> creates k s) (rev post @ c # rev pre) = rev post"
    using assms(1) by (simp add: takeWhile_tail)
  then show ?thesis by (simp add: countedRows_def afterLastCreate_def)
qed

lemma declaredColumns_last_create:
  assumes "creates k c" and "\<forall>s \<in> set post. \<not> creates k s"
  shows "declaredColumns k (pre @ c # post) = extractColumns (readProp c ''create_definitions'')"
proof -
  from assms have "find (creates k) (rev post @ c # rev pre) = Some c"
    by (induction post rule: rev_induct) (simp_all)
  then show ?thesis by (simp add: declaredColumns_def)
qed

lemma unique_entry:
  "distinct (filter isPrimitive (map tableName m)) \<Longrightarrow> isPrimitive n \<Longrightarrow>
   n \<in> set (map tableName m) \<Longrightarrow> \<exists>t. filter (\<lambda>t. tableName t = n) m = [t]"
proof (induction m)
  case Nil
  then show ?case by simp
next
  case (Cons u us)
  show ?case
  proof (cases "tableName u = n")
    case True
    with Cons.prems have "n \<notin> set (map tableName us)" by simp
    then have "filter (\<lambda>t. tableName t = n) us = []"
      by (auto simp: filter_empty_conv)
    with True show ?thesis by simp
  next
    case False
    with Cons show ?thesis by (simp split: if_splits)
  qed
qed

subsection \<open>Statements of the parser's shape\<close>

text \<open>
  On statements as the parser gives them the vocabulary has its expected meaning: a
  statement creates, or inserts into, the table that it names, a \<open>use\<close> statement
  assigns its target, and an \<open>insert\<close> statement has as many rows as its list of values.
\<close>

lemma namedTable_table_ref: "t \<noteq> [] \<Longrightarrow> namedTable (table_ref t) = Some (JStr t)"
  by (simp add: namedTable_def table_ref_def extractTableName_eq)

lemma createdName_create_stmt: "t \<noteq> [] \<Longrightarrow> createdName (create_stmt t defs) = Some (JStr t)"
  using namedTable_table_ref[of t]
  by (simp add: createdName_def hasKind_def isStatement_def create_stmt_def)

lemma insertedName_insert_stmt: "t \<noteq> [] \<Longrightarrow> insertedName (insert_stmt t vals) = Some (JStr t)"
  using namedTable_table_ref[of t]
  by (simp add: insertedName_def hasKind_def isStatement_def insert_stmt_def)

lemma insertSize_insert_stmt: "insertSize (insert_stmt t (JArr rows)) = length rows"
  by (simp add: insertSize_def insert_stmt_def)

lemma useValue_use_stmt: "d \<noteq> [] \<Longrightarrow> useValue (use_stmt d) = Some (JStr d)"
  by (simp add: useValue_def hasKind_def isStatement_def use_stmt_def)

subsection \<open>The examples\<close>

lemma redeclared_result: "analyzeSqlAst redeclared = Some redeclared_summary"
  by code_simp

lemma use_twice_result:
  "analyzeSqlAst (JArr [use_stmt ''a'', use_stmt ''b'']) =
     Some \<lparr>databaseName = JStr ''b'', totalTables = 0, tables = []\<rparr>"
  by code_simp

subsection \<open>The result of the analysis\<close>

text \<open>
  The analyzer returns a result on every plain tree (\<open>analyzeSqlAst_returns\<close>); the
  properties that follow hold of every result that it returns.
\<close>

text \<open>
  C9. The names of the tables of the result are the names that the statements create,
  each once and in the order in which it is first created; no primitive name, and so no
  string, occurs twice (an object or an array as a name is a key of its own); and
  \<open>totalTables\<close> is the number of tables.
\<close>

theorem tables_in_creation_order:
  assumes "analyzeSqlAst ast = Some r"
  shows "map tableName (tables r) = firstSeen (createdNames (statementsOf ast)) \<and>
         distinct (filter isPrimitive (map tableName (tables r))) \<and>
         totalTables r = length (tables r)"
proof -
  from assms obtain w where w: "forEach processStatement (statementsOf ast) start = Some w"
    and r: "tables r = tableMap w" "totalTables r = length (tableMap w)"
    by (rule walk_of_result)
  from walk_names[OF w] walk_distinct[OF w] r show ?thesis by simp
qed

theorem tables_in_creation_order_witness:
  "firstSeen (createdNames (statementsOf redeclared)) = [JStr ''orders'', JStr ''items''] \<and>
   map tableName (tables redeclared_summary) = [JStr ''orders'', JStr ''items''] \<and>
   distinct (filter isPrimitive (map tableName (tables redeclared_summary))) \<and>
   totalTables redeclared_summary = length (tables redeclared_summary)"
proof -
  have "firstSeen (createdNames (statementsOf redeclared)) = map tableName (tables redeclared_summary)"
    using tables_in_creation_order[OF redeclared_result] by simp
  then show ?thesis
    by (simp add: redeclared_summary_def orders_summary_def isPrimitive_def)
qed

text \<open>
  C2. The row count of each table of the result is the sum of the sizes of the \<open>insert\<close>
  statements into the table's name that come after the last statement creating that
  name, the size being the length of \<open>values\<close> when that is an array and 1 otherwise;
  and the name of each table is created by a statement, so that an \<open>insert\<close> statement
  alone gives no table. Names are compared as the keys of the map are.
\<close>

theorem rowCount_counts_inserts_after_create:
  assumes "analyzeSqlAst ast = Some r" and "t \<in> set (tables r)"
  shows "rowCount t = countedRows (tableName t) (statementsOf ast) \<and>
         tableName t \<in> set (createdNames (statementsOf ast))"
proof -
  from assms(1) obtain w where w: "forEach processStatement (statementsOf ast) start = Some w"
    and r: "tables r = tableMap w"
    by (rule walk_of_result)
  from assms(2) r have "tableName t \<in> set (map tableName (tableMap w))" by simp
  then have "tableName t \<in> set (createdNames (statementsOf ast))"
    by (simp add: walk_names[OF w])
  moreover from walk_rows[OF w] assms(2) r
  have "rowCount t = countedRows (tableName t) (statementsOf ast)" by simp
  ultimately show ?thesis by simp
qed

theorem rowCount_counts_inserts_witness:
  "rowCount orders_summary = 2 \<and>
   countedRows (JStr ''orders'') (statementsOf redeclared) = 2 \<and>
   afterLastCreate (JStr ''orders'') (statementsOf redeclared) = redeclared_after \<and>
   JStr ''orders'' \<in> set (createdNames (statementsOf redeclared))"
proof -
  have "orders_summary \<in> set (tables redeclared_summary)"
    by (simp add: redeclared_summary_def)
  from rowCount_counts_inserts_after_create[OF redeclared_result this]
  have "countedRows (JStr ''orders'') (statementsOf redeclared) = 2"
    and "JStr ''orders'' \<in> set (createdNames (statementsOf redeclared))"
    by (simp_all add: orders_summary_def)
  moreover have "afterLastCreate (JStr ''orders'') (statementsOf redeclared) = redeclared_after"
    by code_simp
  ultimately show ?thesis by (simp add: orders_summary_def)
qed

text \<open>
  C4. When two statements create the same name, a primitive value, the later of them
  being the last that creates it, the result has one table of that name; its columns
  are those of the later statement and its row count is the sum of the sizes of the
  \<open>insert\<close> statements into the name that come after the later statement.
\<close>

theorem redeclaration_resets:
  assumes "analyzeSqlAst ast = Some r"
    and "statementsOf ast = pre @ c1 # mid @ c2 # post"
    and "createdName c1 = Some n" and "createdName c2 = Some n" and "isPrimitive n"
    and "\<forall>s \<in> set post. \<not> creates n s"
  shows "\<exists>t. filter (\<lambda>t. tableName t = n) (tables r) = [t] \<and>
           extractColumns (readProp c2 ''create_definitions'') = Some (columns t) \<and>
           rowCount t = sum_list (map insertSize (filter (insertsInto n) post))"
proof -
  from assms(1) obtain w where w: "forEach processStatement (statementsOf ast) start = Some w"
    and r: "tables r = tableMap w"
    by (rule walk_of_result)
  have c2: "creates n c2" using assms(4,5) by (simp add: creates_def sameValueZero_iff)
  have "n \<in> set (createdNames (statementsOf ast))"
    using assms(4) by (simp add: assms(2) createdNames_def List.map_filter_def image_iff) 
  then have "n \<in> set (map tableName (tableMap w))" by (simp add: walk_names[OF w])
  with unique_entry[OF walk_distinct[OF w] assms(5)]
  obtain t where t: "filter (\<lambda>t. tableName t = n) (tableMap w) = [t]" by blast
  then have "t \<in> set (filter (\<lambda>t. tableName t = n) (tableMap w))" by simp
  then have tin: "t \<in> set (tableMap w)" and tn: "tableName t = n" by simp_all
  have "countedRows n (statementsOf ast) = sum_list (map insertSize (filter (insertsInto n) post))"
    using countedRows_after_last_create[OF c2 assms(6), of "pre @ c1 # mid"]
    by (simp add: assms(2))
  with walk_rows[OF w tin]
  have "rowCount t = sum_list (map insertSize (filter (insertsInto n) post))"
    by (simp add: tn)
  moreover have "declaredColumns n (statementsOf ast) =
      extractColumns (readProp c2 ''create_definitions'')"
    using declaredColumns_last_create[OF c2 assms(6), of "pre @ c1 # mid"]
    by (simp add: assms(2))
  with walk_columns[OF w tin] assms(5)
  have "extractColumns (readProp c2 ''create_definitions'') = Some (columns t)"
    by (simp add: tn)
  ultimately show ?thesis using t r by simp
qed


theorem redeclaration_resets_witness:
  "filter (\<lambda>t. tableName t = JStr ''orders'') (tables redeclared_summary) = [orders_summary] \<and>
   extractColumns (readProp redeclared_create ''create_definitions'') =
     Some [\<lparr>columnName = ''total'', dataType = ''DECIMAL(10,2)''\<rparr>] \<and>
   rowCount orders_summary =
     sum_list (map insertSize (filter (insertsInto (JStr ''orders'')) redeclared_after))"
proof -
  have split: "statementsOf redeclared =
      [insert_stmt ''orders'' (JArr [expr_list [JNum 1]])] @
      create_stmt ''orders'' (JArr
        [column_def ''id'' (JObj [(''dataType'', JStr ''INT''), (''length'', JNum 11)])]) #
      [insert_stmt ''orders'' (JArr [expr_list [JNum 1], expr_list [JNum 2]]), use_stmt ''a''] @
      redeclared_create # redeclared_after"
    by (simp add: statementsOf_def redeclared_def redeclared_before_def)
  have c1: "createdName (create_stmt ''orders'' (JArr
        [column_def ''id'' (JObj [(''dataType'', JStr ''INT''), (''length'', JNum 11)])])) =
      Some (JStr ''orders'')"
    by code_simp
  have c2: "createdName redeclared_create = Some (JStr ''orders'')"
    by code_simp
  have prim: "isPrimitive (JStr ''orders'')"
    by (simp add: isPrimitive_def)
  have last: "\<forall>s \<in> set redeclared_after. \<not> creates (JStr ''orders'') s"
    by code_simp
  from redeclaration_resets[OF redeclared_result split c1 c2 prim last]
  obtain t where t: "filter (\<lambda>t. tableName t = JStr ''orders'') (tables redeclared_summary) = [t]"
    and cols: "extractColumns (readProp redeclared_create ''create_definitions'') = Some (columns t)"
    and rows: "rowCount t =
      sum_list (map insertSize (filter (insertsInto (JStr ''orders'')) redeclared_after))"
    by blast
  have "filter (\<lambda>t. tableName t = JStr ''orders'') (tables redeclared_summary) = [orders_summary]"
    by (simp add: redeclared_summary_def orders_summary_def)
  with t have "t = orders_summary" by simp
  with t cols rows show ?thesis by (simp add: orders_summary_def)
qed

text \<open>
  C7, as amended. The database name of the result is the value of the last \<open>use\<close>
  statement whose \<open>db\<close> field is truthy: that field when it is a string, else its own
  \<open>db\<close> field when that is truthy, else the field itself; it is \<open>null\<close> when there is
  no such statement.
\<close>

theorem databaseName_of_last_assigning_use:
  assumes "analyzeSqlAst ast = Some r"
  shows "databaseName r = lastUse (statementsOf ast)"
proof -
  from assms obtain w where w: "forEach processStatement (statementsOf ast) start = Some w"
    and r: "databaseName r = result_databaseName w"
    by (rule walk_of_result)
  from walk_db[OF w] r show ?thesis by simp
qed

theorem databaseName_use_twice_witness:
  "lastUse (statementsOf (JArr [use_stmt ''a'', use_stmt ''b''])) = JStr ''b'' \<and>
   databaseName \<lparr>databaseName = JStr ''b'', totalTables = 0, tables = []\<rparr> = JStr ''b''"
  using databaseName_of_last_assigning_use[OF use_twice_result] by simp

text \<open>
  A \<open>use\<close> statement with the empty string as target does not overwrite the name.
\<close>

theorem use_without_target_counterexample:
  "analyzeSqlAst (JArr [use_stmt ''a'', use_stmt []]) =
     Some \<lparr>databaseName = JStr ''a'', totalTables = 0, tables = []\<rparr> \<and>
   claimedDatabaseName (statementsOf (JArr [use_stmt ''a'', use_stmt []])) = JStr []"
  by code_simp

subsection \<open>The end-to-end scenario\<close>

text \<open>
  C1. For the scenario the analyzer returns the database \<open>shop\<close> and one table
  \<open>users\<close> with three rows and the columns \<open>id\<close> and \<open>name\<close>. The code returns all
  of this but the type of \<open>id\<close>, which is \<open>INT(3)\<close> instead of \<open>INT\<close>.
\<close>

theorem scenario_result:
  "analyzeSqlAst scenario = Some
     \<lparr>databaseName = JStr ''shop'',
      totalTables = 1,
      tables =
        [\<lparr>tableName = JStr ''users'',
          columns = [\<lparr>columnName = ''id'', dataType = ''INT(3)''\<rparr>,
                     \<lparr>columnName = ''name'', dataType = ''VARCHAR(50)''\<rparr>],
          rowCount = 3\<rparr>]\<rparr>"
  by code_simp

end
